theory Spec2Isabelle
  imports Complex_Main "HOL-Library.Char_ord" "HOL-Library.List_Lexorder"
    "HOL-Library.Product_Lexorder" "HOL-Library.Multiset"
begin

section \<open>Values, rows and tables\<close>

text \<open>
  The operation types (\<^verbatim>\<open>@/operation\<close>) and the table declarations (\<^verbatim>\<open>@/db/schema\<close>) are
  imported by \<^verbatim>\<open>client2server.ts\<close> but are not part of the source at hand. A JavaScript
  object is therefore modelled as what it is at run time, a finite map from property names
  to values, and a table row as a map from column names to values. Columns carry the
  property names the handlers use (\<^verbatim>\<open>lastModified\<close>, \<^verbatim>\<open>seqNo\<close>, ...).

  \<open>Undefined\<close> is the value \<^verbatim>\<open>undefined\<close> of JavaScript, which reading an absent property gives;
  \<open>Null\<close> is \<^verbatim>\<open>null\<close>, also the \<^verbatim>\<open>NULL\<close> of SQL. No row holds \<open>Undefined\<close> in a column.
\<close>

datatype val =
    Undefined
  | Null
  | Integer int
  | Number real
  | Boolean bool
  | Text string
  | Date int

type_synonym row = "string \<rightharpoonup> val"

type_synonym table = "val list \<rightharpoonup> row"

text \<open>
  The comparison operators of the SQL fragments. A comparison with a missing or \<^verbatim>\<open>NULL\<close>
  value is never true; the columns compared by the handlers are compared with values of their
  own type only, and a comparison across types counts as not true here. Text is compared
  byte by byte: the lexicographic order of lists over the order of characters by code.
\<close>

fun val_gt :: "val \<Rightarrow> val \<Rightarrow> bool" where
  "val_gt (Integer a) (Integer b) = (b < a)"
| "val_gt (Number a) (Number b) = (b < a)"
| "val_gt (Boolean a) (Boolean b) = (b < a)"
| "val_gt (Text a) (Text b) = (b < a)"
| "val_gt (Date a) (Date b) = (b < a)"
| "val_gt _ _ = False"

fun sql_gt :: "val option \<Rightarrow> val option \<Rightarrow> bool" where
  "sql_gt (Some a) (Some b) = val_gt a b"
| "sql_gt _ _ = False"

fun sql_eq :: "val option \<Rightarrow> val option \<Rightarrow> bool" where
  "sql_eq (Some a) (Some b) = (a = b \<and> a \<noteq> Null \<and> a \<noteq> Undefined)"
| "sql_eq _ _ = False"

text \<open>
  \<^verbatim>\<open>new Date(op.timestamp)\<close>: the timestamp is an integer number of milliseconds. A date holds
  at most 8640000000000000 milliseconds on either side of the epoch; beyond, the date is
  invalid, and what is stored for an invalid date is \<^verbatim>\<open>NULL\<close>.
\<close>

definition newDate :: "int \<Rightarrow> val" where
  "newDate t = (if - 8640000000000000 \<le> t \<and> t \<le> 8640000000000000 then Date t else Null)"

text \<open>
  The value of a row in the columns of a conflict target. A row that was given no value in
  a column of the key has the key \<open>Undefined\<close> there: this is an operation that lacks its key
  property.
\<close>

definition keyOf :: "string list \<Rightarrow> row \<Rightarrow> val list" where
  "keyOf target r = map (\<lambda>c. case r c of Some v \<Rightarrow> v | None \<Rightarrow> Undefined) target"

text \<open>
  The query builder skips the properties of a \<^verbatim>\<open>values\<close> or \<^verbatim>\<open>set\<close> object whose value is
  \<^verbatim>\<open>undefined\<close>: an inserted row gets no value in such a column (it holds the column's default,
  \<^verbatim>\<open>NULL\<close> if it has none), and an update does not assign it, so that the column keeps the
  value stored. A property whose value is \<^verbatim>\<open>null\<close> is written as \<^verbatim>\<open>NULL\<close>.
\<close>

definition defined :: "(string \<times> val) list \<Rightarrow> (string \<times> val) list" where
  "defined kvs = filter (\<lambda>(c, v). v \<noteq> Undefined) kvs"

text \<open>
  Modelled from the spec: the table declarations of \<^verbatim>\<open>@/db/schema\<close> are missing; by section 6.2
  of the specification each table has the primary key listed in section 4.3, which is the
  conflict target its handler names, and no other constraint is modelled.

  \<^verbatim>\<open>insert(t).values(v).onConflictDoUpdate({target, set, setWhere})\<close> is one statement: it
  inserts the row \<open>v\<close> when no row has its key; otherwise it assigns the columns of \<open>set\<close> in the
  stored row when \<open>setWhere\<close> holds of the proposed row (\<^verbatim>\<open>excluded\<close>) and the stored row, and
  does nothing when it does not hold.
\<close>

definition onConflictDoUpdate ::
  "table \<Rightarrow> (string \<times> val) list \<Rightarrow> string list \<Rightarrow> (string \<times> val) list \<Rightarrow>
   (row \<Rightarrow> row \<Rightarrow> bool) \<Rightarrow> table" where
  "onConflictDoUpdate t vs target sets setWhere =
     (let excluded = map_of vs; k = keyOf target excluded in
      case t k of
        None \<Rightarrow> t(k \<mapsto> excluded)
      | Some stored \<Rightarrow>
          if setWhere excluded stored then t(k \<mapsto> stored ++ map_of sets) else t)"

text \<open>\<^verbatim>\<open>insert(t).values(v).onConflictDoNothing({target})\<close>.\<close>

definition onConflictDoNothing :: "table \<Rightarrow> (string \<times> val) list \<Rightarrow> string list \<Rightarrow> table" where
  "onConflictDoNothing t vs target =
     (let excluded = map_of vs; k = keyOf target excluded in
      case t k of
        None \<Rightarrow> t(k \<mapsto> excluded)
      | Some stored \<Rightarrow> t)"

section \<open>Operations and the database\<close>

text \<open>
  \<^verbatim>\<open>ClientToServer<Operation>\<close>: an operation with its discriminator \<^verbatim>\<open>type\<close>, its
  \<^verbatim>\<open>timestamp\<close>, its \<^verbatim>\<open>payload\<close> object (a property that is absent reads as \<open>Undefined\<close>) and
  the \<^verbatim>\<open>clientId\<close> and \<^verbatim>\<open>userId\<close> added by the server.
\<close>

record Operation =
  optype :: string
  timestamp :: int
  payload :: "string \<Rightarrow> val"
  clientId :: string
  userId :: string

text \<open>
  The database: the column \<^verbatim>\<open>next_seq_no\<close> of the table \<^verbatim>\<open>users\<close> by user id (the only
  column of that table the code reads or writes), and the nine tables the handlers write.
  Sequence numbers are unbounded integers here; the 64-bit column and the JavaScript
  number agree with them below \<open>2 ^ 53\<close>.
\<close>

record D1Database =
  users :: "string \<rightharpoonup> int"
  cards :: table
  reviewLogs :: table
  reviewLogDeleted :: table
  cardContents :: table
  cardDeleted :: table
  cardBookmarked :: table
  cardSuspended :: table
  decks :: table
  cardDecks :: table

datatype error =
    SequenceAllocationFailed
  | UnknownOperationType
  | StorageError

section \<open>The sequence allocator\<close>

text \<open>
  \<^verbatim>\<open>UPDATE users SET next_seq_no = next_seq_no + ? WHERE id = ? RETURNING next_seq_no - ?\<close>,
  bound to \<open>(length, userId, length)\<close>: the statement returns no row when no user has the id,
  and the function throws \<^verbatim>\<open>Failed to reserve sequence number\<close>.
\<close>

definition reserveSeqNo :: "string \<Rightarrow> D1Database \<Rightarrow> int \<Rightarrow> error + (int \<times> D1Database)" where
  "reserveSeqNo uid db len =
     (case users db uid of
        None \<Rightarrow> Inl SequenceAllocationFailed
      | Some next_seq_no \<Rightarrow>
          Inr ((next_seq_no + len) - len, db\<lparr>users := (users db)(uid \<mapsto> next_seq_no + len)\<rparr>))"

section \<open>The operation handlers\<close>

text \<open>
  Each handler is one statement. Its \<^verbatim>\<open>values\<close> object and its \<^verbatim>\<open>set\<close> object are kept as
  lists of columns in the order of the source, without the properties that are undefined.
\<close>

text \<open>
  The \<^verbatim>\<open>setWhere\<close> of the seven last-write-wins handlers, the same SQL text over each table:
  \<^verbatim>\<open>excluded.last_modified > t.last_modified OR (excluded.last_modified = t.last_modified
  AND excluded.last_modified_client > t.last_modified_client)\<close>.
\<close>

definition lwwSetWhere :: "row \<Rightarrow> row \<Rightarrow> bool" where
  "lwwSetWhere excluded stored =
     (sql_gt (excluded ''lastModified'') (stored ''lastModified'')
      \<or> (sql_eq (excluded ''lastModified'') (stored ''lastModified'')
          \<and> sql_gt (excluded ''lastModifiedClient'') (stored ''lastModifiedClient'')))"

definition cardValues :: "Operation \<Rightarrow> int \<Rightarrow> (string \<times> val) list" where
  "cardValues op seqNo =
     defined
       [(''lastModified'', newDate (timestamp op)),
        (''lastModifiedClient'', Text (clientId op)),
        (''seqNo'', Integer seqNo),
        (''id'', payload op ''id''),
        (''userId'', Text (userId op)),
        (''due'', payload op ''due''),
        (''stability'', payload op ''stability''),
        (''difficulty'', payload op ''difficulty''),
        (''elapsed_days'', payload op ''elapsed_days''),
        (''scheduled_days'', payload op ''scheduled_days''),
        (''reps'', payload op ''reps''),
        (''lapses'', payload op ''lapses''),
        (''state'', payload op ''state''),
        (''last_review'', payload op ''last_review'')]"

definition cardSet :: "Operation \<Rightarrow> int \<Rightarrow> (string \<times> val) list" where
  "cardSet op seqNo =
     defined
       [(''seqNo'', Integer seqNo),
        (''lastModifiedClient'', Text (clientId op)),
        (''lastModified'', newDate (timestamp op)),
        (''due'', payload op ''due''),
        (''stability'', payload op ''stability''),
        (''difficulty'', payload op ''difficulty''),
        (''elapsed_days'', payload op ''elapsed_days''),
        (''scheduled_days'', payload op ''scheduled_days''),
        (''reps'', payload op ''reps''),
        (''lapses'', payload op ''lapses''),
        (''state'', payload op ''state''),
        (''last_review'', payload op ''last_review'')]"

definition handleCardOperation :: "Operation \<Rightarrow> D1Database \<Rightarrow> int \<Rightarrow> D1Database" where
  "handleCardOperation op db seqNo =
     db\<lparr>cards := onConflictDoUpdate (cards db) (cardValues op seqNo) [''id'']
                    (cardSet op seqNo) lwwSetWhere\<rparr>"

text \<open>The review log is a grow-only set: on conflict the statement does nothing.\<close>

definition reviewLogValues :: "Operation \<Rightarrow> int \<Rightarrow> (string \<times> val) list" where
  "reviewLogValues op seqNo =
     defined
       [(''id'', payload op ''id''),
        (''cardId'', payload op ''cardId''),
        (''seqNo'', Integer seqNo),
        (''lastModifiedClient'', Text (clientId op)),
        (''grade'', payload op ''grade''),
        (''state'', payload op ''state''),
        (''due'', payload op ''due''),
        (''stability'', payload op ''stability''),
        (''difficulty'', payload op ''difficulty''),
        (''elapsed_days'', payload op ''elapsed_days''),
        (''last_elapsed_days'', payload op ''last_elapsed_days''),
        (''scheduled_days'', payload op ''scheduled_days''),
        (''review'', payload op ''review''),
        (''duration'', payload op ''duration''),
        (''createdAt'', newDate (timestamp op))]"

definition handleReviewLogOperation :: "Operation \<Rightarrow> D1Database \<Rightarrow> int \<Rightarrow> D1Database" where
  "handleReviewLogOperation op db seqNo =
     db\<lparr>reviewLogs := onConflictDoNothing (reviewLogs db) (reviewLogValues op seqNo) [''id'']\<rparr>"

definition reviewLogDeletedValues :: "Operation \<Rightarrow> int \<Rightarrow> (string \<times> val) list" where
  "reviewLogDeletedValues op seqNo =
     defined
       [(''reviewLogId'', payload op ''reviewLogId''),
        (''deleted'', payload op ''deleted''),
        (''lastModified'', newDate (timestamp op)),
        (''lastModifiedClient'', Text (clientId op)),
        (''seqNo'', Integer seqNo)]"

definition reviewLogDeletedSet :: "Operation \<Rightarrow> int \<Rightarrow> (string \<times> val) list" where
  "reviewLogDeletedSet op seqNo =
     defined
       [(''deleted'', payload op ''deleted''),
        (''lastModified'', newDate (timestamp op)),
        (''lastModifiedClient'', Text (clientId op)),
        (''seqNo'', Integer seqNo)]"

definition handleReviewLogDeletedOperation ::
  "Operation \<Rightarrow> D1Database \<Rightarrow> int \<Rightarrow> D1Database" where
  "handleReviewLogDeletedOperation op db seqNo =
     db\<lparr>reviewLogDeleted :=
          onConflictDoUpdate (reviewLogDeleted db) (reviewLogDeletedValues op seqNo)
            [''reviewLogId''] (reviewLogDeletedSet op seqNo) lwwSetWhere\<rparr>"

definition cardContentValues :: "Operation \<Rightarrow> int \<Rightarrow> (string \<times> val) list" where
  "cardContentValues op seqNo =
     defined
       [(''cardId'', payload op ''cardId''),
        (''front'', payload op ''front''),
        (''back'', payload op ''back''),
        (''lastModified'', newDate (timestamp op)),
        (''lastModifiedClient'', Text (clientId op)),
        (''seqNo'', Integer seqNo)]"

definition cardContentSet :: "Operation \<Rightarrow> int \<Rightarrow> (string \<times> val) list" where
  "cardContentSet op seqNo =
     defined
       [(''front'', payload op ''front''),
        (''back'', payload op ''back''),
        (''lastModified'', newDate (timestamp op)),
        (''lastModifiedClient'', Text (clientId op)),
        (''seqNo'', Integer seqNo)]"

definition handleCardContentOperation :: "Operation \<Rightarrow> D1Database \<Rightarrow> int \<Rightarrow> D1Database" where
  "handleCardContentOperation op db seqNo =
     db\<lparr>cardContents :=
          onConflictDoUpdate (cardContents db) (cardContentValues op seqNo)
            [''cardId''] (cardContentSet op seqNo) lwwSetWhere\<rparr>"

definition cardDeletedValues :: "Operation \<Rightarrow> int \<Rightarrow> (string \<times> val) list" where
  "cardDeletedValues op seqNo =
     defined
       [(''cardId'', payload op ''cardId''),
        (''lastModified'', newDate (timestamp op)),
        (''lastModifiedClient'', Text (clientId op)),
        (''seqNo'', Integer seqNo),
        (''deleted'', payload op ''deleted'')]"

definition cardDeletedSet :: "Operation \<Rightarrow> int \<Rightarrow> (string \<times> val) list" where
  "cardDeletedSet op seqNo =
     defined
       [(''lastModified'', newDate (timestamp op)),
        (''lastModifiedClient'', Text (clientId op)),
        (''deleted'', payload op ''deleted''),
        (''seqNo'', Integer seqNo)]"

definition handleCardDeletedOperation :: "Operation \<Rightarrow> D1Database \<Rightarrow> int \<Rightarrow> D1Database" where
  "handleCardDeletedOperation op db seqNo =
     db\<lparr>cardDeleted :=
          onConflictDoUpdate (cardDeleted db) (cardDeletedValues op seqNo)
            [''cardId''] (cardDeletedSet op seqNo) lwwSetWhere\<rparr>"

definition cardBookmarkedValues :: "Operation \<Rightarrow> int \<Rightarrow> (string \<times> val) list" where
  "cardBookmarkedValues op seqNo =
     defined
       [(''cardId'', payload op ''cardId''),
        (''bookmarked'', payload op ''bookmarked''),
        (''lastModified'', newDate (timestamp op)),
        (''lastModifiedClient'', Text (clientId op)),
        (''seqNo'', Integer seqNo)]"

definition cardBookmarkedSet :: "Operation \<Rightarrow> int \<Rightarrow> (string \<times> val) list" where
  "cardBookmarkedSet op seqNo =
     defined
       [(''bookmarked'', payload op ''bookmarked''),
        (''lastModified'', newDate (timestamp op)),
        (''lastModifiedClient'', Text (clientId op)),
        (''seqNo'', Integer seqNo)]"

definition handleCardBookmarkedOperation ::
  "Operation \<Rightarrow> D1Database \<Rightarrow> int \<Rightarrow> D1Database" where
  "handleCardBookmarkedOperation op db seqNo =
     db\<lparr>cardBookmarked :=
          onConflictDoUpdate (cardBookmarked db) (cardBookmarkedValues op seqNo)
            [''cardId''] (cardBookmarkedSet op seqNo) lwwSetWhere\<rparr>"

definition cardSuspendedValues :: "Operation \<Rightarrow> int \<Rightarrow> (string \<times> val) list" where
  "cardSuspendedValues op seqNo =
     defined
       [(''cardId'', payload op ''cardId''),
        (''suspended'', payload op ''suspended''),
        (''lastModified'', newDate (timestamp op)),
        (''lastModifiedClient'', Text (clientId op)),
        (''seqNo'', Integer seqNo)]"

definition cardSuspendedSet :: "Operation \<Rightarrow> int \<Rightarrow> (string \<times> val) list" where
  "cardSuspendedSet op seqNo =
     defined
       [(''suspended'', payload op ''suspended''),
        (''lastModified'', newDate (timestamp op)),
        (''lastModifiedClient'', Text (clientId op)),
        (''seqNo'', Integer seqNo)]"

definition handleCardSuspendedOperation ::
  "Operation \<Rightarrow> D1Database \<Rightarrow> int \<Rightarrow> D1Database" where
  "handleCardSuspendedOperation op db seqNo =
     db\<lparr>cardSuspended :=
          onConflictDoUpdate (cardSuspended db) (cardSuspendedValues op seqNo)
            [''cardId''] (cardSuspendedSet op seqNo) lwwSetWhere\<rparr>"

definition deckValues :: "Operation \<Rightarrow> int \<Rightarrow> (string \<times> val) list" where
  "deckValues op seqNo =
     defined
       [(''id'', payload op ''id''),
        (''name'', payload op ''name''),
        (''description'', payload op ''description''),
        (''deleted'', payload op ''deleted''),
        (''lastModified'', newDate (timestamp op)),
        (''lastModifiedClient'', Text (clientId op)),
        (''seqNo'', Integer seqNo),
        (''userId'', Text (userId op))]"

definition deckSet :: "Operation \<Rightarrow> int \<Rightarrow> (string \<times> val) list" where
  "deckSet op seqNo =
     defined
       [(''name'', payload op ''name''),
        (''description'', payload op ''description''),
        (''deleted'', payload op ''deleted''),
        (''lastModified'', newDate (timestamp op)),
        (''lastModifiedClient'', Text (clientId op)),
        (''seqNo'', Integer seqNo)]"

definition handleDeckOperation :: "Operation \<Rightarrow> D1Database \<Rightarrow> int \<Rightarrow> D1Database" where
  "handleDeckOperation op db seqNo =
     db\<lparr>decks := onConflictDoUpdate (decks db) (deckValues op seqNo) [''id'']
                    (deckSet op seqNo) lwwSetWhere\<rparr>"

text \<open>
  The relation of cards and decks is a counter: \<^verbatim>\<open>setWhere\<close> is
  \<^verbatim>\<open>excluded.cl_count > card_decks.cl_count\<close>.
\<close>

definition clSetWhere :: "row \<Rightarrow> row \<Rightarrow> bool" where
  "clSetWhere excluded stored = sql_gt (excluded ''clCount'') (stored ''clCount'')"

definition updateDeckCardValues :: "Operation \<Rightarrow> int \<Rightarrow> (string \<times> val) list" where
  "updateDeckCardValues op seqNo =
     defined
       [(''cardId'', payload op ''cardId''),
        (''deckId'', payload op ''deckId''),
        (''seqNo'', Integer seqNo),
        (''clCount'', payload op ''clCount''),
        (''lastModified'', newDate (timestamp op)),
        (''lastModifiedClient'', Text (clientId op))]"

definition updateDeckCardSet :: "Operation \<Rightarrow> int \<Rightarrow> (string \<times> val) list" where
  "updateDeckCardSet op seqNo =
     defined
       [(''clCount'', payload op ''clCount''),
        (''lastModified'', newDate (timestamp op)),
        (''lastModifiedClient'', Text (clientId op)),
        (''seqNo'', Integer seqNo)]"

definition handleUpdateDeckCardOperation ::
  "Operation \<Rightarrow> D1Database \<Rightarrow> int \<Rightarrow> D1Database" where
  "handleUpdateDeckCardOperation op db seqNo =
     db\<lparr>cardDecks :=
          onConflictDoUpdate (cardDecks db) (updateDeckCardValues op seqNo)
            [''cardId'', ''deckId''] (updateDeckCardSet op seqNo) clSetWhere\<rparr>"

section \<open>The dispatcher\<close>

text \<open>
  The promise a handler returns is the promise of its statement. The storage engine either
  executes the statement or rejects it; a rejected statement changes nothing and its error
  reaches the caller, as no handler catches it. Which of the two happens is the
  environment's choice and a parameter of the dispatcher.
\<close>

datatype outcome = Executes | Rejects

definition await :: "outcome \<Rightarrow> D1Database \<Rightarrow> D1Database \<Rightarrow> (error + unit) \<times> D1Database" where
  "await stmt before after =
     (case stmt of Executes \<Rightarrow> (Inr (), after) | Rejects \<Rightarrow> (Inl StorageError, before))"

definition handleClientOperation ::
  "Operation \<Rightarrow> D1Database \<Rightarrow> outcome \<Rightarrow> (error + unit) \<times> D1Database" where
  "handleClientOperation op db stmt =
     (case reserveSeqNo (userId op) db 1 of
        Inl e \<Rightarrow> (Inl e, db)
      | Inr (seqNo, db1) \<Rightarrow>
          if optype op = ''card'' then
            await stmt db1 (handleCardOperation op db1 seqNo)
          else if optype op = ''reviewLog'' then
            await stmt db1 (handleReviewLogOperation op db1 seqNo)
          else if optype op = ''reviewLogDeleted'' then
            await stmt db1 (handleReviewLogDeletedOperation op db1 seqNo)
          else if optype op = ''cardContent'' then
            await stmt db1 (handleCardContentOperation op db1 seqNo)
          else if optype op = ''cardDeleted'' then
            await stmt db1 (handleCardDeletedOperation op db1 seqNo)
          else if optype op = ''cardBookmarked'' then
            await stmt db1 (handleCardBookmarkedOperation op db1 seqNo)
          else if optype op = ''cardSuspended'' then
            await stmt db1 (handleCardSuspendedOperation op db1 seqNo)
          else if optype op = ''deck'' then
            await stmt db1 (handleDeckOperation op db1 seqNo)
          else if optype op = ''updateDeckCard'' then
            await stmt db1 (handleUpdateDeckCardOperation op db1 seqNo)
          else (Inl UnknownOperationType, db1))"

text \<open>\<^verbatim>\<open>opToClient2ServerOp\<close> adds the user and the client to an operation.\<close>

definition opToClient2ServerOp :: "Operation \<Rightarrow> string \<Rightarrow> string \<Rightarrow> Operation" where
  "opToClient2ServerOp op uid cid = op\<lparr>userId := uid, clientId := cid\<rparr>"

section \<open>The batch validator\<close>

datatype ValidateOpCountResult = Success | Failure string

definition MAX_OPS :: nat where
  "MAX_OPS = 10000"

definition TOO_MANY_OPS_ERROR_MSG :: string where
  "TOO_MANY_OPS_ERROR_MSG = ''Too many operations''"

definition validateOpCount :: "Operation list \<Rightarrow> ValidateOpCountResult" where
  "validateOpCount ops =
     (if length ops > MAX_OPS then Failure TOO_MANY_OPS_ERROR_MSG else Success)"

section \<open>Notions of the specification\<close>

text \<open>
  The definitions of this section are not functions of the source. They name what the
  specification talks about (the closed set of discriminators, the row an operation targets,
  a sequence of calls) so that the theorems below can be stated over the handlers above.
\<close>

text \<open>The closed set of discriminators (section 3.1 of the specification).\<close>

definition operationTypes :: "string list" where
  "operationTypes = [''card'', ''reviewLog'', ''reviewLogDeleted'', ''cardContent'', ''cardDeleted'',
     ''cardBookmarked'', ''cardSuspended'', ''deck'', ''updateDeckCard'']"

text \<open>The seven kinds merged as last-write-wins registers (section 4.3).\<close>

definition lwwTypes :: "string list" where
  "lwwTypes = [''card'', ''reviewLogDeleted'', ''cardContent'', ''cardDeleted'',
     ''cardBookmarked'', ''cardSuspended'', ''deck'']"

text \<open>The database after one sequence number was reserved for a user whose counter was \<open>s\<close>.\<close>

definition reserved :: "D1Database \<Rightarrow> string \<Rightarrow> int \<Rightarrow> D1Database" where
  "reserved db uid s = db\<lparr>users := (users db)(uid \<mapsto> s + 1)\<rparr>"

text \<open>
  One statement on one row: what \<open>onConflictDoUpdate\<close> does to the row of the key, given the
  row stored there (if any).
\<close>

definition mergeRow ::
  "(string \<times> val) list \<Rightarrow> (string \<times> val) list \<Rightarrow> (row \<Rightarrow> row \<Rightarrow> bool) \<Rightarrow> row option \<Rightarrow> row option" where
  "mergeRow vs sets setWhere stored =
     (case stored of
        None \<Rightarrow> Some (map_of vs)
      | Some r \<Rightarrow> if setWhere (map_of vs) r then Some (r ++ map_of sets) else Some r)"

text \<open>
  The table and the key an operation targets (the table of section 4.3), and the lists and the
  predicate its handler passes to the statement.
\<close>

definition targetKey :: "Operation \<Rightarrow> val list" where
  "targetKey op =
     (if optype op = ''card'' \<or> optype op = ''reviewLog'' \<or> optype op = ''deck'' then [payload op ''id'']
      else if optype op = ''reviewLogDeleted'' then [payload op ''reviewLogId'']
      else if optype op = ''updateDeckCard'' then [payload op ''cardId'', payload op ''deckId'']
      else [payload op ''cardId''])"

definition targetTable :: "string \<Rightarrow> D1Database \<Rightarrow> table" where
  "targetTable ty db =
     (if ty = ''card'' then cards db
      else if ty = ''reviewLog'' then reviewLogs db
      else if ty = ''reviewLogDeleted'' then reviewLogDeleted db
      else if ty = ''cardContent'' then cardContents db
      else if ty = ''cardDeleted'' then cardDeleted db
      else if ty = ''cardBookmarked'' then cardBookmarked db
      else if ty = ''cardSuspended'' then cardSuspended db
      else if ty = ''deck'' then decks db
      else if ty = ''updateDeckCard'' then cardDecks db
      else Map.empty)"

definition targetRow :: "Operation \<Rightarrow> D1Database \<Rightarrow> row option" where
  "targetRow op db = targetTable (optype op) db (targetKey op)"

definition valuesOf :: "Operation \<Rightarrow> int \<Rightarrow> (string \<times> val) list" where
  "valuesOf op q =
     (if optype op = ''card'' then cardValues op q
      else if optype op = ''reviewLog'' then reviewLogValues op q
      else if optype op = ''reviewLogDeleted'' then reviewLogDeletedValues op q
      else if optype op = ''cardContent'' then cardContentValues op q
      else if optype op = ''cardDeleted'' then cardDeletedValues op q
      else if optype op = ''cardBookmarked'' then cardBookmarkedValues op q
      else if optype op = ''cardSuspended'' then cardSuspendedValues op q
      else if optype op = ''deck'' then deckValues op q
      else if optype op = ''updateDeckCard'' then updateDeckCardValues op q
      else [])"

definition setOf :: "Operation \<Rightarrow> int \<Rightarrow> (string \<times> val) list" where
  "setOf op q =
     (if optype op = ''card'' then cardSet op q
      else if optype op = ''reviewLogDeleted'' then reviewLogDeletedSet op q
      else if optype op = ''cardContent'' then cardContentSet op q
      else if optype op = ''cardDeleted'' then cardDeletedSet op q
      else if optype op = ''cardBookmarked'' then cardBookmarkedSet op q
      else if optype op = ''cardSuspended'' then cardSuspendedSet op q
      else if optype op = ''deck'' then deckSet op q
      else if optype op = ''updateDeckCard'' then updateDeckCardSet op q
      else [])"

definition whereOf :: "Operation \<Rightarrow> row \<Rightarrow> row \<Rightarrow> bool" where
  "whereOf op =
     (if optype op \<in> set lwwTypes then lwwSetWhere
      else if optype op = ''updateDeckCard'' then clSetWhere
      else (\<lambda>excluded stored. False))"

definition writeTarget :: "Operation \<Rightarrow> (row option \<Rightarrow> row option) \<Rightarrow> D1Database \<Rightarrow> D1Database" where
  "writeTarget op f db =
     (let k = targetKey op in
      if optype op = ''card'' then db\<lparr>cards := (cards db)(k := f (cards db k))\<rparr>
      else if optype op = ''reviewLog'' then db\<lparr>reviewLogs := (reviewLogs db)(k := f (reviewLogs db k))\<rparr>
      else if optype op = ''reviewLogDeleted'' then
        db\<lparr>reviewLogDeleted := (reviewLogDeleted db)(k := f (reviewLogDeleted db k))\<rparr>
      else if optype op = ''cardContent'' then
        db\<lparr>cardContents := (cardContents db)(k := f (cardContents db k))\<rparr>
      else if optype op = ''cardDeleted'' then
        db\<lparr>cardDeleted := (cardDeleted db)(k := f (cardDeleted db k))\<rparr>
      else if optype op = ''cardBookmarked'' then
        db\<lparr>cardBookmarked := (cardBookmarked db)(k := f (cardBookmarked db k))\<rparr>
      else if optype op = ''cardSuspended'' then
        db\<lparr>cardSuspended := (cardSuspended db)(k := f (cardSuspended db k))\<rparr>
      else if optype op = ''deck'' then db\<lparr>decks := (decks db)(k := f (decks db k))\<rparr>
      else if optype op = ''updateDeckCard'' then
        db\<lparr>cardDecks := (cardDecks db)(k := f (cardDecks db k))\<rparr>
      else db)"

definition merged :: "Operation \<Rightarrow> int \<Rightarrow> D1Database \<Rightarrow> D1Database" where
  "merged op q = writeTarget op (mergeRow (valuesOf op q) (setOf op q) (whereOf op))"

text \<open>
  The operations of a request are applied one after the other (section 5); the first error
  ends the request. Every statement is executed.
\<close>

fun applyOps :: "Operation list \<Rightarrow> D1Database \<Rightarrow> error + D1Database" where
  "applyOps [] db = Inr db"
| "applyOps (op # ops) db =
     (case handleClientOperation op db Executes of
        (Inl e, _) \<Rightarrow> Inl e
      | (Inr _, db') \<Rightarrow> applyOps ops db')"

text \<open>
  An operation is absorbed by a database when the row it targets exists and the operation's
  \<^verbatim>\<open>setWhere\<close> does not hold of it: applying the operation writes nothing.
\<close>

definition absorbed :: "Operation \<Rightarrow> D1Database \<Rightarrow> bool" where
  "absorbed op db =
     (case targetRow op db of
        None \<Rightarrow> False
      | Some r \<Rightarrow> \<not> whereOf op (map_of (valuesOf op 0)) r)"




text \<open>
  Section 6.1 of the specification: the payload fields of each kind of operation. An operation
  defines a list of fields when none of them is undefined; it is complete when it defines
  every field of its kind and its timestamp is one a date can hold. A row carries fields of
  an operation when it holds the operation's value in each of them.
\<close>

definition payloadFields :: "string \<Rightarrow> string list" where
  "payloadFields ty =
     (if ty = ''card'' then
        [''id'', ''due'', ''stability'', ''difficulty'', ''elapsed_days'', ''scheduled_days'',
         ''reps'', ''lapses'', ''state'', ''last_review'']
      else if ty = ''cardContent'' then [''cardId'', ''front'', ''back'']
      else if ty = ''cardDeleted'' then [''cardId'', ''deleted'']
      else if ty = ''cardBookmarked'' then [''cardId'', ''bookmarked'']
      else if ty = ''cardSuspended'' then [''cardId'', ''suspended'']
      else if ty = ''deck'' then [''id'', ''name'', ''description'', ''deleted'']
      else if ty = ''reviewLog'' then
        [''id'', ''cardId'', ''grade'', ''state'', ''due'', ''stability'', ''difficulty'',
         ''elapsed_days'', ''last_elapsed_days'', ''scheduled_days'', ''review'', ''duration'']
      else if ty = ''reviewLogDeleted'' then [''reviewLogId'', ''deleted'']
      else if ty = ''updateDeckCard'' then [''cardId'', ''deckId'', ''clCount'']
      else [])"

definition definesAll :: "Operation \<Rightarrow> string list \<Rightarrow> bool" where
  "definesAll op cols = list_all (\<lambda>c. payload op c \<noteq> Undefined) cols"

definition validTimestamp :: "int \<Rightarrow> bool" where
  "validTimestamp t = (- 8640000000000000 \<le> t \<and> t \<le> 8640000000000000)"

definition complete :: "Operation \<Rightarrow> bool" where
  "complete op = (definesAll op (payloadFields (optype op)) \<and> validTimestamp (timestamp op))"


text \<open>A column of the row of a key, and the three merge-metadata columns (section 3.3).\<close>

definition column :: "row option \<Rightarrow> string \<Rightarrow> val option" where
  "column stored c = (case stored of None \<Rightarrow> None | Some r \<Rightarrow> r c)"

definition metadata :: "row option \<Rightarrow> val option \<times> val option \<times> val option" where
  "metadata stored =
     (column stored ''seqNo'', column stored ''lastModified'', column stored ''lastModifiedClient'')"

text \<open>
  Convergence (section 5). One operation dominates another of its kind when its
  conflict-resolution value is strictly greater: the integer \<open>clCount\<close> for \<^verbatim>\<open>updateDeckCard\<close>,
  the pair \<open>(timestamp, clientId)\<close> in lexicographic order for the other kinds. The kinds merged
  by such a value are the seven last-write-wins kinds and \<^verbatim>\<open>updateDeckCard\<close>. A row is compared
  up to its sequence number by dropping the column \<open>seqNo\<close>; \<open>astep\<close> is what one operation does
  to the row of its key when sequence numbers are disregarded.
\<close>

definition dominates :: "Operation \<Rightarrow> Operation \<Rightarrow> bool" where
  "dominates x y =
     (if optype x = ''updateDeckCard'' then
        (case payload x ''clCount'' of
           Integer a \<Rightarrow> (case payload y ''clCount'' of Integer b \<Rightarrow> b < a | _ \<Rightarrow> False)
         | _ \<Rightarrow> False)
      else (timestamp y, clientId y) < (timestamp x, clientId x))"

definition dropSeqNo :: "row option \<Rightarrow> row option" where
  "dropSeqNo stored = map_option (\<lambda>r. r(''seqNo'' := None)) stored"

definition mergedTypes :: "string list" where
  "mergedTypes = lwwTypes @ [''updateDeckCard'']"

definition astep :: "Operation \<Rightarrow> row option \<Rightarrow> row option" where
  "astep x stored = dropSeqNo (mergeRow (valuesOf x 0) (setOf x 0) (whereOf x) stored)"

text \<open>The row an operation targets after a sequence of operations was applied.\<close>

definition finalRow :: "Operation list \<Rightarrow> D1Database \<Rightarrow> Operation \<Rightarrow> row option" where
  "finalRow ops db op0 =
     (case applyOps ops db of Inl e \<Rightarrow> None | Inr db1 \<Rightarrow> targetRow op0 db1)"

section \<open>Concrete values for the scenarios\<close>

text \<open>A JavaScript object literal: the listed properties, every other property absent.\<close>

definition obj :: "(string \<times> val) list \<Rightarrow> string \<Rightarrow> val" where
  "obj kvs k = (case map_of kvs k of Some v \<Rightarrow> v | None \<Rightarrow> Undefined)"

definition mkOp :: "string \<Rightarrow> int \<Rightarrow> string \<Rightarrow> string \<Rightarrow> (string \<times> val) list \<Rightarrow> Operation" where
  "mkOp ty ts cid uid kvs =
     \<lparr>optype = ty, timestamp = ts, payload = obj kvs, clientId = cid, userId = uid\<rparr>"

text \<open>A database with no row in any table but the users' one.\<close>

definition userDb :: "(string \<rightharpoonup> int) \<Rightarrow> D1Database" where
  "userDb us =
     \<lparr>users = us, cards = Map.empty, reviewLogs = Map.empty, reviewLogDeleted = Map.empty,
      cardContents = Map.empty, cardDeleted = Map.empty, cardBookmarked = Map.empty,
      cardSuspended = Map.empty, decks = Map.empty, cardDecks = Map.empty\<rparr>"

definition deckCardOp :: "int \<Rightarrow> int \<Rightarrow> string \<Rightarrow> Operation" where
  "deckCardOp n ts cid =
     mkOp ''updateDeckCard'' ts cid ''u''
       [(''cardId'', Text ''c1''), (''deckId'', Text ''d1''), (''clCount'', Integer n)]"

text \<open>
  The payload of a \<^verbatim>\<open>card\<close> operation on the card \<^verbatim>\<open>c1\<close> with every field defined, and the one
  of a card that was never reviewed, which has no \<^verbatim>\<open>last_review\<close>.
\<close>

definition cardFields :: "real \<Rightarrow> (string \<times> val) list" where
  "cardFields st =
     [(''id'', Text ''c1''), (''due'', Date 7), (''stability'', Number st),
      (''difficulty'', Number 5), (''elapsed_days'', Integer 0), (''scheduled_days'', Integer 1),
      (''reps'', Integer 1), (''lapses'', Integer 0), (''state'', Integer 2),
      (''last_review'', Date 50)]"

definition newCardFields :: "(string \<times> val) list" where
  "newCardFields =
     [(''id'', Text ''c1''), (''due'', Date 9), (''stability'', Number 0),
      (''difficulty'', Number 0), (''elapsed_days'', Integer 0), (''scheduled_days'', Integer 0),
      (''reps'', Integer 0), (''lapses'', Integer 0), (''state'', Integer 0)]"

definition cardOpA :: Operation where
  "cardOpA = mkOp ''card'' 100 ''A'' ''u'' (cardFields 1)"

definition cardOpB :: Operation where
  "cardOpB = mkOp ''card'' 100 ''B'' ''u'' (cardFields 2)"

definition cardOpA2 :: Operation where
  "cardOpA2 = mkOp ''card'' 100 ''A'' ''u'' (cardFields 3)"

definition cardOpV :: Operation where
  "cardOpV = mkOp ''card'' 200 ''A'' ''v'' (cardFields 4)"

definition cardOpNew :: Operation where
  "cardOpNew = mkOp ''card'' 200 ''A'' ''u'' newCardFields"


definition reviewLogOp :: Operation where
  "reviewLogOp = mkOp ''reviewLog'' 100 ''A'' ''u'' [(''id'', Text ''r1''), (''grade'', Integer 3)]"

definition reviewLogOp2 :: Operation where
  "reviewLogOp2 = mkOp ''reviewLog'' 100 ''A'' ''u'' [(''id'', Text ''r1''), (''grade'', Integer 4)]"

section \<open>The handlers, uniformly\<close>

text \<open>Looking a column up in an object, and the objects whose properties are all defined.\<close>

lemma defined_lookup:
  "map_of (defined []) c = None"
  "map_of (defined ((k, v) # kvs)) c
     = (if c = k \<and> v \<noteq> Undefined then Some v else map_of (defined kvs) c)"
  by (simp_all add: defined_def)

lemma defined_add_lookup:
  "(r ++ map_of (defined [])) c = r c"
  "(r ++ map_of (defined ((k, v) # kvs))) c
     = (if c = k \<and> v \<noteq> Undefined then Some v else (r ++ map_of (defined kvs)) c)"
  by (simp_all add: defined_def map_add_def)

lemma defined_list:
  "defined [] = []"
  "v \<noteq> Undefined \<Longrightarrow> defined ((k, v) # kvs) = (k, v) # defined kvs"
  "defined ((k, Undefined) # kvs) = defined kvs"
  by (simp_all add: defined_def)

lemma newDate_defined [simp]: "newDate t \<noteq> Undefined"
  by (simp add: newDate_def)

lemmas handler_defs =
  handleCardOperation_def handleReviewLogOperation_def handleReviewLogDeletedOperation_def
  handleCardContentOperation_def handleCardDeletedOperation_def handleCardBookmarkedOperation_def
  handleCardSuspendedOperation_def handleDeckOperation_def handleUpdateDeckCardOperation_def

lemma users_handler [simp]:
  "users (handleCardOperation op db q) = users db"
  "users (handleReviewLogOperation op db q) = users db"
  "users (handleReviewLogDeletedOperation op db q) = users db"
  "users (handleCardContentOperation op db q) = users db"
  "users (handleCardDeletedOperation op db q) = users db"
  "users (handleCardBookmarkedOperation op db q) = users db"
  "users (handleCardSuspendedOperation op db q) = users db"
  "users (handleDeckOperation op db q) = users db"
  "users (handleUpdateDeckCardOperation op db q) = users db"
  by (simp_all add: handler_defs)

lemma handleClientOperation_reserved:
  assumes "users db (userId op) = Some s"
  shows "handleClientOperation op db stmt =
    (let db1 = reserved db (userId op) s in
     if optype op = ''card'' then await stmt db1 (handleCardOperation op db1 s)
     else if optype op = ''reviewLog'' then await stmt db1 (handleReviewLogOperation op db1 s)
     else if optype op = ''reviewLogDeleted'' then
       await stmt db1 (handleReviewLogDeletedOperation op db1 s)
     else if optype op = ''cardContent'' then await stmt db1 (handleCardContentOperation op db1 s)
     else if optype op = ''cardDeleted'' then await stmt db1 (handleCardDeletedOperation op db1 s)
     else if optype op = ''cardBookmarked'' then
       await stmt db1 (handleCardBookmarkedOperation op db1 s)
     else if optype op = ''cardSuspended'' then
       await stmt db1 (handleCardSuspendedOperation op db1 s)
     else if optype op = ''deck'' then await stmt db1 (handleDeckOperation op db1 s)
     else if optype op = ''updateDeckCard'' then
       await stmt db1 (handleUpdateDeckCardOperation op db1 s)
     else (Inl UnknownOperationType, db1))"
  using assms by (simp add: handleClientOperation_def reserveSeqNo_def reserved_def Let_def)

lemma onConflictDoUpdate_mergeRow:
  "onConflictDoUpdate t vs target sets w =
     t(keyOf target (map_of vs) := mergeRow vs sets w (t (keyOf target (map_of vs))))"
  by (auto simp: onConflictDoUpdate_def mergeRow_def Let_def fun_upd_idem split: option.splits)

lemma onConflictDoNothing_mergeRow:
  "onConflictDoNothing t vs target =
     t(keyOf target (map_of vs) := mergeRow vs [] (\<lambda>excluded stored. False) (t (keyOf target (map_of vs))))"
  by (auto simp: onConflictDoNothing_def mergeRow_def Let_def fun_upd_idem split: option.splits)

lemma handler_keys:
  "keyOf [''id''] (map_of (cardValues op q)) = [payload op ''id'']"
  "keyOf [''id''] (map_of (reviewLogValues op q)) = [payload op ''id'']"
  "keyOf [''reviewLogId''] (map_of (reviewLogDeletedValues op q)) = [payload op ''reviewLogId'']"
  "keyOf [''cardId''] (map_of (cardContentValues op q)) = [payload op ''cardId'']"
  "keyOf [''cardId''] (map_of (cardDeletedValues op q)) = [payload op ''cardId'']"
  "keyOf [''cardId''] (map_of (cardBookmarkedValues op q)) = [payload op ''cardId'']"
  "keyOf [''cardId''] (map_of (cardSuspendedValues op q)) = [payload op ''cardId'']"
  "keyOf [''id''] (map_of (deckValues op q)) = [payload op ''id'']"
  "keyOf [''cardId'', ''deckId''] (map_of (updateDeckCardValues op q))
     = [payload op ''cardId'', payload op ''deckId'']"
  by (simp_all add: cardValues_def reviewLogValues_def reviewLogDeletedValues_def
      cardContentValues_def cardDeletedValues_def cardBookmarkedValues_def
      cardSuspendedValues_def deckValues_def updateDeckCardValues_def keyOf_def defined_lookup)

lemma handlers_merged:
  "optype op = ''card'' \<Longrightarrow> handleCardOperation op db q = merged op q db"
  "optype op = ''reviewLog'' \<Longrightarrow> handleReviewLogOperation op db q = merged op q db"
  "optype op = ''reviewLogDeleted'' \<Longrightarrow> handleReviewLogDeletedOperation op db q = merged op q db"
  "optype op = ''cardContent'' \<Longrightarrow> handleCardContentOperation op db q = merged op q db"
  "optype op = ''cardDeleted'' \<Longrightarrow> handleCardDeletedOperation op db q = merged op q db"
  "optype op = ''cardBookmarked'' \<Longrightarrow> handleCardBookmarkedOperation op db q = merged op q db"
  "optype op = ''cardSuspended'' \<Longrightarrow> handleCardSuspendedOperation op db q = merged op q db"
  "optype op = ''deck'' \<Longrightarrow> handleDeckOperation op db q = merged op q db"
  "optype op = ''updateDeckCard'' \<Longrightarrow> handleUpdateDeckCardOperation op db q = merged op q db"
  by (simp_all add: handler_defs merged_def writeTarget_def targetKey_def valuesOf_def setOf_def
      whereOf_def lwwTypes_def onConflictDoUpdate_mergeRow onConflictDoNothing_mergeRow handler_keys
      Let_def)

lemma handleClientOperation_merged:
  assumes "users db (userId op) = Some s"
  shows "handleClientOperation op db Executes =
     (if optype op \<in> set operationTypes then (Inr (), merged op s (reserved db (userId op) s))
      else (Inl UnknownOperationType, reserved db (userId op) s))"
  unfolding handleClientOperation_reserved [OF assms] Let_def operationTypes_def
  by (simp add: await_def handlers_merged)

section \<open>The setWhere predicates are strict orders\<close>

lemma val_gt_trans: "val_gt a b \<Longrightarrow> val_gt b c \<Longrightarrow> val_gt a c"
  by (cases a; cases b; cases c) auto

lemma val_gt_irrefl [simp]: "\<not> val_gt a a"
  by (cases a) auto

lemma sql_gt_trans: "sql_gt a b \<Longrightarrow> sql_gt b c \<Longrightarrow> sql_gt a c"
  by (cases a; cases b; cases c) (auto intro: val_gt_trans)

lemma sql_gt_irrefl [simp]: "\<not> sql_gt a a"
  by (cases a) auto

lemma sql_eq_eq: "sql_eq a b \<Longrightarrow> a = b"
  by (cases a; cases b) auto

lemma sql_eq_trans: "sql_eq a b \<Longrightarrow> sql_eq b c \<Longrightarrow> sql_eq a c"
  by (cases a; cases b; cases c) auto

lemma sql_gt_eq: "sql_gt a b \<Longrightarrow> sql_eq b c \<Longrightarrow> sql_gt a c"
  by (drule sql_eq_eq) simp

lemma sql_eq_gt: "sql_eq a b \<Longrightarrow> sql_gt b c \<Longrightarrow> sql_gt a c"
  by (drule sql_eq_eq) simp

lemma lwwSetWhere_trans:
  assumes "lwwSetWhere x y" and "lwwSetWhere y r"
  shows "lwwSetWhere x r"
proof -
  let ?a = "x ''lastModified''" and ?b = "x ''lastModifiedClient''"
  let ?c = "y ''lastModified''" and ?d = "y ''lastModifiedClient''"
  let ?e = "r ''lastModified''" and ?f = "r ''lastModifiedClient''"
  from assms(1) consider "sql_gt ?a ?c" | "sql_eq ?a ?c" "sql_gt ?b ?d"
    by (auto simp: lwwSetWhere_def)
  then show ?thesis
  proof cases
    case 1
    from assms(2) consider "sql_gt ?c ?e" | "sql_eq ?c ?e"
      by (auto simp: lwwSetWhere_def)
    then have "sql_gt ?a ?e"
      using 1 by cases (blast intro: sql_gt_trans sql_gt_eq)+
    then show ?thesis by (simp add: lwwSetWhere_def)
  next
    case 2
    from assms(2) consider "sql_gt ?c ?e" | "sql_eq ?c ?e" "sql_gt ?d ?f"
      by (auto simp: lwwSetWhere_def)
    then show ?thesis
    proof cases
      case 1
      with 2 have "sql_gt ?a ?e" by (blast intro: sql_eq_gt)
      then show ?thesis by (simp add: lwwSetWhere_def)
    next
      case 2
      with \<open>sql_eq ?a ?c\<close> \<open>sql_gt ?b ?d\<close> have "sql_eq ?a ?e" and "sql_gt ?b ?f"
        by (blast intro: sql_eq_trans sql_gt_trans)+
      then show ?thesis by (simp add: lwwSetWhere_def)
    qed
  qed
qed

lemma lwwSetWhere_irrefl [simp]: "\<not> lwwSetWhere r r"
  by (simp add: lwwSetWhere_def)

lemma clSetWhere_trans:
  "clSetWhere x y \<Longrightarrow> clSetWhere y r \<Longrightarrow> clSetWhere x r"
  unfolding clSetWhere_def by (rule sql_gt_trans)

lemma clSetWhere_irrefl [simp]: "\<not> clSetWhere r r"
  by (simp add: clSetWhere_def)

lemma whereOf_trans: "whereOf op x y \<Longrightarrow> whereOf op y r \<Longrightarrow> whereOf op x r"
  by (auto simp: whereOf_def intro: lwwSetWhere_trans clSetWhere_trans split: if_splits)

lemma whereOf_irrefl [simp]: "\<not> whereOf op r r"
  by (simp add: whereOf_def)

lemma lwwSetWhere_cong:
  "x ''lastModified'' = x' ''lastModified'' \<Longrightarrow> x ''lastModifiedClient'' = x' ''lastModifiedClient'' \<Longrightarrow>
   r ''lastModified'' = r' ''lastModified'' \<Longrightarrow> r ''lastModifiedClient'' = r' ''lastModifiedClient'' \<Longrightarrow>
   lwwSetWhere x r = lwwSetWhere x' r'"
  by (simp add: lwwSetWhere_def)

lemma clSetWhere_cong:
  "x ''clCount'' = x' ''clCount'' \<Longrightarrow> r ''clCount'' = r' ''clCount'' \<Longrightarrow>
   clSetWhere x r = clSetWhere x' r'"
  by (simp add: clSetWhere_def)

lemmas list_defs = cardValues_def cardSet_def reviewLogValues_def reviewLogDeletedValues_def
  reviewLogDeletedSet_def cardContentValues_def cardContentSet_def cardDeletedValues_def
  cardDeletedSet_def cardBookmarkedValues_def cardBookmarkedSet_def cardSuspendedValues_def
  cardSuspendedSet_def deckValues_def deckSet_def updateDeckCardValues_def updateDeckCardSet_def

lemma known_type_cases:
  assumes "optype op \<in> set operationTypes"
  obtains "optype op = ''card''" | "optype op = ''reviewLog''" | "optype op = ''reviewLogDeleted''"
    | "optype op = ''cardContent''" | "optype op = ''cardDeleted''" | "optype op = ''cardBookmarked''"
    | "optype op = ''cardSuspended''" | "optype op = ''deck''" | "optype op = ''updateDeckCard''"
  using assms unfolding operationTypes_def by auto

lemma lww_type_cases:
  assumes "optype op \<in> set lwwTypes"
  obtains "optype op = ''card''" | "optype op = ''reviewLogDeleted''"
    | "optype op = ''cardContent''" | "optype op = ''cardDeleted''" | "optype op = ''cardBookmarked''"
    | "optype op = ''cardSuspended''" | "optype op = ''deck''"
  using assms unfolding lwwTypes_def by auto

lemma lww_values_cols:
  assumes "optype op \<in> set lwwTypes"
  shows "map_of (valuesOf op q) ''lastModified'' = Some (newDate (timestamp op))"
    and "map_of (valuesOf op q) ''lastModifiedClient'' = Some (Text (clientId op))"
    and "(r ++ map_of (setOf op q)) ''lastModified'' = Some (newDate (timestamp op))"
    and "(r ++ map_of (setOf op q)) ''lastModifiedClient'' = Some (Text (clientId op))"
  using assms
  by (cases rule: lww_type_cases;
      simp add: valuesOf_def setOf_def list_defs defined_lookup defined_add_lookup)+

lemma cl_values_cols:
  assumes "optype op = ''updateDeckCard''"
  shows "map_of (valuesOf op q) ''clCount''
      = (if payload op ''clCount'' = Undefined then None else Some (payload op ''clCount''))"
    and "(r ++ map_of (setOf op q)) ''clCount''
      = (if payload op ''clCount'' = Undefined then r ''clCount'' else Some (payload op ''clCount''))"
  using assms
  by (simp_all add: valuesOf_def setOf_def list_defs defined_lookup defined_add_lookup)

lemma whereOf_lww: "optype op \<in> set lwwTypes \<Longrightarrow> whereOf op = lwwSetWhere"
  by (simp add: whereOf_def)

lemma whereOf_cl: "optype op = ''updateDeckCard'' \<Longrightarrow> whereOf op = clSetWhere"
  by (simp add: whereOf_def lwwTypes_def)

lemma whereOf_other:
  "optype op \<notin> set lwwTypes \<Longrightarrow> optype op \<noteq> ''updateDeckCard'' \<Longrightarrow>
   whereOf op = (\<lambda>excluded stored. False)"
  by (simp add: whereOf_def)

lemma whereOf_values:
  "whereOf op (map_of (valuesOf op q)) r = whereOf op (map_of (valuesOf op q')) r"
proof (cases "optype op \<in> set lwwTypes")
  case True
  then show ?thesis
    by (simp add: whereOf_lww lwwSetWhere_def lww_values_cols)
next
  case False
  show ?thesis
  proof (cases "optype op = ''updateDeckCard''")
    case True
    then show ?thesis by (simp add: whereOf_cl clSetWhere_def cl_values_cols)
  next
    case False
    with \<open>optype op \<notin> set lwwTypes\<close> show ?thesis by (simp add: whereOf_other)
  qed
qed

lemma whereOf_updated:
  assumes "optype y = optype op"
    and "optype y = ''updateDeckCard'' \<Longrightarrow> payload y ''clCount'' \<noteq> Undefined"
  shows "whereOf op x (r ++ map_of (setOf y q)) = whereOf op x (map_of (valuesOf y q))"
proof (cases "optype op \<in> set lwwTypes")
  case True
  with assms have "optype y \<in> set lwwTypes" by simp
  with True show ?thesis
    by (simp add: whereOf_lww lwwSetWhere_def lww_values_cols)
next
  case False
  show ?thesis
  proof (cases "optype op = ''updateDeckCard''")
    case True
    with assms(1) have "optype y = ''updateDeckCard''" by simp
    with True assms(2) show ?thesis by (simp add: whereOf_cl clSetWhere_def cl_values_cols)
  next
    case False
    with \<open>optype op \<notin> set lwwTypes\<close> show ?thesis by (simp add: whereOf_other)
  qed
qed

lemma whereOf_same_type: "optype y = optype op \<Longrightarrow> whereOf y = whereOf op"
  by (simp add: whereOf_def)

lemma whereOf_counter_defined:
  assumes "whereOf y (map_of (valuesOf y q)) r" and "optype y = ''updateDeckCard''"
  shows "payload y ''clCount'' \<noteq> Undefined"
proof
  assume "payload y ''clCount'' = Undefined"
  with assms show False by (simp add: whereOf_cl clSetWhere_def cl_values_cols)
qed

lemma whereOf_won:
  assumes "optype y = optype op" and "whereOf op (map_of (valuesOf y q)) r'"
  shows "whereOf op x (r ++ map_of (setOf y q)) = whereOf op x (map_of (valuesOf y q))"
proof (rule whereOf_updated [OF assms(1)])
  assume "optype y = ''updateDeckCard''"
  moreover from assms(2) have "whereOf y (map_of (valuesOf y q)) r'"
    by (simp only: whereOf_same_type [OF assms(1)])
  ultimately show "payload y ''clCount'' \<noteq> Undefined"
    by (rule whereOf_counter_defined [rotated])
qed

lemma mergeRow_absorbed:
  "(case mergeRow (valuesOf op q) (setOf op q) (whereOf op) ro of
      None \<Rightarrow> False | Some r \<Rightarrow> \<not> whereOf op (map_of (valuesOf op 0)) r)"
proof (cases ro)
  case None
  then show ?thesis by (simp add: mergeRow_def whereOf_values [where q = 0 and q' = q])
next
  case (Some r)
  show ?thesis
  proof (cases "whereOf op (map_of (valuesOf op q)) r")
    case True
    from whereOf_won [OF refl True] Some True show ?thesis
      by (simp add: mergeRow_def whereOf_values [where q = 0 and q' = q])
  next
    case False
    with Some show ?thesis
      by (simp add: mergeRow_def whereOf_values [where q = 0 and q' = q])
  qed
qed

lemma users_writeTarget [simp]: "users (writeTarget op f db) = users db"
  by (simp add: writeTarget_def Let_def)

lemma users_merged [simp]: "users (merged op q db) = users db"
  by (simp add: merged_def)

lemma targetTable_users_update [simp]:
  "targetTable ty (db\<lparr>users := us\<rparr>) = targetTable ty db"
  by (simp add: targetTable_def)

lemma targetRow_reserved [simp]: "targetRow op (reserved db u s) = targetRow op db"
  by (simp add: targetRow_def reserved_def)

lemma targetRow_writeTarget:
  "optype op0 \<in> set operationTypes \<Longrightarrow>
   targetRow op0 (writeTarget op f db) =
     (if optype op = optype op0 \<and> targetKey op = targetKey op0 then f (targetRow op0 db)
      else targetRow op0 db)"
  by (auto simp: operationTypes_def targetRow_def targetTable_def writeTarget_def Let_def)

lemma writeTarget_noop:
  assumes "f (targetRow op db) = targetRow op db"
  shows "writeTarget op f db = db"
proof (cases "optype op \<in> set operationTypes")
  case True
  then show ?thesis
    using assms
    by (cases rule: known_type_cases)
      (simp_all add: targetRow_def targetTable_def writeTarget_def Let_def)
next
  case False
  then show ?thesis
    by (simp add: writeTarget_def operationTypes_def)
qed

lemma absorbed_known: "absorbed op db \<Longrightarrow> optype op \<in> set operationTypes"
  by (auto simp: absorbed_def targetRow_def targetTable_def operationTypes_def split: if_splits)

lemma absorbed_reserved [simp]: "absorbed op (reserved db u s) = absorbed op db"
  by (simp add: absorbed_def)

lemma merged_absorbed:
  "optype op \<in> set operationTypes \<Longrightarrow> absorbed op (merged op q db)"
  using mergeRow_absorbed [of op q "targetRow op db"]
  by (simp add: absorbed_def merged_def targetRow_writeTarget)

lemma absorbed_merged:
  assumes "absorbed op db"
  shows "absorbed op (merged y q db)"
proof -
  from assms have k: "optype op \<in> set operationTypes" by (rule absorbed_known)
  from assms obtain r where r: "targetRow op db = Some r"
    and n: "\<not> whereOf op (map_of (valuesOf op 0)) r"
    by (auto simp: absorbed_def split: option.splits)
  show ?thesis
  proof (cases "optype y = optype op \<and> targetKey y = targetKey op")
    case False
    with assms k show ?thesis
      by (auto simp: absorbed_def merged_def targetRow_writeTarget)
  next
    case True
    then have ty: "optype y = optype op" by simp
    have "\<not> whereOf op (map_of (valuesOf op 0)) (r ++ map_of (setOf y q))"
      if w: "whereOf op (map_of (valuesOf y q)) r"
    proof
      assume "whereOf op (map_of (valuesOf op 0)) (r ++ map_of (setOf y q))"
      then have "whereOf op (map_of (valuesOf op 0)) (map_of (valuesOf y q))"
        by (simp add: whereOf_won [OF ty w])
      from whereOf_trans [OF this w] n show False by simp
    qed
    with True k r n show ?thesis
      by (auto simp: absorbed_def merged_def targetRow_writeTarget mergeRow_def
          whereOf_same_type [OF ty])
  qed
qed

lemma absorbed_noop: "absorbed op db \<Longrightarrow> merged op q db = db"
  unfolding merged_def
  by (rule writeTarget_noop)
    (auto simp: absorbed_def mergeRow_def whereOf_values [where q = q and q' = 0] split: option.splits)

section \<open>Sequences of operations\<close>

lemma handleClientOperation_no_user:
  "users db (userId op) = None \<Longrightarrow> handleClientOperation op db stmt = (Inl SequenceAllocationFailed, db)"
  by (simp add: handleClientOperation_def reserveSeqNo_def)

lemma applyOps_Cons_Inr:
  assumes "applyOps (op # ops) db = Inr db1"
  obtains s where "users db (userId op) = Some s" and "optype op \<in> set operationTypes"
    and "applyOps ops (merged op s (reserved db (userId op) s)) = Inr db1"
proof (cases "users db (userId op)")
  case None
  with assms show ?thesis by (simp add: handleClientOperation_no_user)
next
  case (Some s)
  with assms that [of s] show ?thesis
    by (simp add: handleClientOperation_merged split: if_splits)
qed

lemma applyOps_absorbed:
  "absorbed op db \<Longrightarrow> applyOps mid db = Inr db1 \<Longrightarrow> absorbed op db1"
proof (induction mid arbitrary: db)
  case Nil
  then show ?case by simp
next
  case (Cons y mid)
  from Cons.prems(2) obtain s where
    "applyOps mid (merged y s (reserved db (userId y) s)) = Inr db1"
    by (rule applyOps_Cons_Inr)
  moreover have "absorbed op (merged y s (reserved db (userId y) s))"
    using Cons.prems(1) by (simp add: absorbed_merged)
  ultimately show ?case by (rule Cons.IH [rotated])
qed

lemma users_reserved: "users (reserved db u s) = (users db)(u \<mapsto> s + 1)"
  by (simp add: reserved_def)

lemma applyOps_users_mono:
  "users db u = Some s \<Longrightarrow> applyOps mid db = Inr db1 \<Longrightarrow> \<exists>s'. users db1 u = Some s' \<and> s \<le> s'"
proof (induction mid arbitrary: db s)
  case Nil
  then show ?case by simp
next
  case (Cons y mid)
  from Cons.prems(2) obtain t where t: "users db (userId y) = Some t"
    and r: "applyOps mid (merged y t (reserved db (userId y) t)) = Inr db1"
    by (rule applyOps_Cons_Inr)
  show ?case
  proof (cases "userId y = u")
    case True
    with t Cons.prems(1) have "users (merged y t (reserved db (userId y) t)) u = Some (s + 1)"
      by (simp add: users_reserved)
    from Cons.IH [OF this r] obtain s' where "users db1 u = Some s'" and "s + 1 \<le> s'" by blast
    then show ?thesis by (intro exI [of _ s']) simp
  next
    case False
    with Cons.prems(1) have "users (merged y t (reserved db (userId y) t)) u = Some s"
      by (simp add: users_reserved)
    from Cons.IH [OF this r] show ?thesis .
  qed
qed

lemma absorbed_replay:
  assumes "absorbed op db" and "users db (userId op) = Some s"
  shows "handleClientOperation op db Executes
           = (Inr (), db\<lparr>users := (users db)(userId op \<mapsto> s + 1)\<rparr>)"
proof -
  have "absorbed op (reserved db (userId op) s)" using assms(1) by simp
  then have "merged op s (reserved db (userId op) s) = reserved db (userId op) s"
    by (rule absorbed_noop)
  with assms absorbed_known [OF assms(1)] show ?thesis
    by (simp add: handleClientOperation_merged reserved_def)
qed

lemma replicate_absorbed:
  "absorbed op db \<Longrightarrow> users db (userId op) = Some s \<Longrightarrow>
   applyOps (replicate n op) db = Inr (db\<lparr>users := (users db)(userId op \<mapsto> s + int n)\<rparr>)"
proof (induction n arbitrary: db s)
  case 0
  then show ?case by (simp add: map_upd_triv)
next
  case (Suc n)
  let ?db = "db\<lparr>users := (users db)(userId op \<mapsto> s + 1)\<rparr>"
  have "absorbed op ?db" using Suc.prems(1) by (simp add: absorbed_def targetRow_def)
  moreover have "users ?db (userId op) = Some (s + 1)" by simp
  ultimately have ih: "applyOps (replicate n op) ?db
      = Inr (?db\<lparr>users := (users ?db)(userId op \<mapsto> s + 1 + int n)\<rparr>)"
    by (rule Suc.IH)
  have e: "?db\<lparr>users := (users ?db)(userId op \<mapsto> s + 1 + int n)\<rparr>
      = db\<lparr>users := (users db)(userId op \<mapsto> s + int (Suc n))\<rparr>"
    by (simp add: algebra_simps)
  have "applyOps (replicate (Suc n) op) db = applyOps (replicate n op) ?db"
    by (simp add: absorbed_replay [OF Suc.prems])
  then have "applyOps (replicate (Suc n) op) db
      = Inr (?db\<lparr>users := (users ?db)(userId op \<mapsto> s + 1 + int n)\<rparr>)"
    using ih by (rule trans)
  then show ?case by (simp only: e)
qed

lemma updateDeckCard_exists:
  assumes "cardDecks db [payload op ''cardId'', payload op ''deckId''] = Some stored"
    and "stored ''clCount'' = Some (Integer c)"
    and "payload op ''clCount'' = Integer n"
  shows "handleUpdateDeckCardOperation op db seqNo =
      (if c < n then
         db\<lparr>cardDecks := (cardDecks db)([payload op ''cardId'', payload op ''deckId''] \<mapsto>
              stored(''seqNo'' \<mapsto> Integer seqNo, ''lastModifiedClient'' \<mapsto> Text (clientId op),
                ''lastModified'' \<mapsto> newDate (timestamp op), ''clCount'' \<mapsto> Integer n))\<rparr>
       else db)"
proof -
  have v: "map_of (updateDeckCardValues op seqNo) ''clCount'' = Some (Integer n)"
    using assms(3) by (simp add: updateDeckCardValues_def defined_lookup)
  have s: "stored ++ map_of (updateDeckCardSet op seqNo)
      = stored(''seqNo'' \<mapsto> Integer seqNo, ''lastModifiedClient'' \<mapsto> Text (clientId op),
          ''lastModified'' \<mapsto> newDate (timestamp op), ''clCount'' \<mapsto> Integer n)"
    using assms(3) by (simp add: updateDeckCardSet_def defined_list)
  from assms(1,2) v s show ?thesis
    by (simp add: handleUpdateDeckCardOperation_def onConflictDoUpdate_def handler_keys Let_def
        clSetWhere_def)
qed

section \<open>The last-write-wins statement and the register of the specification\<close>


















section \<open>The metadata of a written row\<close>

lemma mergeRow_cases:
  obtains (same) "mergeRow vs sets w stored = stored"
  | (inserted) "stored = None" and "mergeRow vs sets w stored = Some (map_of vs)"
  | (updated) r where "stored = Some r" and "w (map_of vs) r"
      and "mergeRow vs sets w stored = Some (r ++ map_of sets)"
proof (cases stored)
  case None
  then show ?thesis using inserted by (simp add: mergeRow_def)
next
  case (Some r)
  show ?thesis
  proof (cases "w (map_of vs) r")
    case True
    with Some show ?thesis using updated by (simp add: mergeRow_def)
  next
    case False
    with Some show ?thesis using same by (simp add: mergeRow_def)
  qed
qed

lemma written_generic:
  assumes "map_of vs ''seqNo'' = a" and "map_of vs ''lastModified'' = b"
    and "map_of vs ''lastModifiedClient'' = c"
    and "\<And>r. w (map_of vs) r \<Longrightarrow> (r ++ map_of sets) ''seqNo'' = a"
    and "\<And>r. w (map_of vs) r \<Longrightarrow> (r ++ map_of sets) ''lastModified'' = b"
    and "\<And>r. w (map_of vs) r \<Longrightarrow> (r ++ map_of sets) ''lastModifiedClient'' = c"
  shows "t(k := mergeRow vs sets w (t k)) = t
     \<or> metadata ((t(k := mergeRow vs sets w (t k))) k) = (a, b, c)"
proof (cases rule: mergeRow_cases [of vs sets w "t k"])
  case same
  then show ?thesis by simp
next
  case inserted
  with assms(1-3) show ?thesis by (simp add: metadata_def column_def)
next
  case (updated r)
  with assms(4-6) [OF updated(2)] show ?thesis by (simp add: metadata_def column_def)
qed

lemma written_card:
  "handleCardOperation op db q = db
   \<or> metadata (cards (handleCardOperation op db q) [payload op ''id''])
       = (Some (Integer q), Some (newDate (timestamp op)), Some (Text (clientId op)))"
proof -
  let ?m = "mergeRow (cardValues op q) (cardSet op q) lwwSetWhere (cards db [payload op ''id''])"
  have h: "handleCardOperation op db q = db\<lparr>cards := (cards db)([payload op ''id''] := ?m)\<rparr>"
    by (simp only: handleCardOperation_def onConflictDoUpdate_mergeRow handler_keys)
  have "(cards db)([payload op ''id''] := ?m) = cards db
     \<or> metadata (((cards db)([payload op ''id''] := ?m)) [payload op ''id''])
         = (Some (Integer q), Some (newDate (timestamp op)), Some (Text (clientId op)))"
    by (rule written_generic)
      (simp_all add: cardValues_def cardSet_def defined_lookup defined_add_lookup)
  then show ?thesis
  proof
    assume "(cards db)([payload op ''id''] := ?m) = cards db"
    with h show ?thesis by simp
  next
    assume "metadata (((cards db)([payload op ''id''] := ?m)) [payload op ''id''])
         = (Some (Integer q), Some (newDate (timestamp op)), Some (Text (clientId op)))"
    with h show ?thesis by simp
  qed
qed

lemma written_reviewLogDeleted:
  "handleReviewLogDeletedOperation op db q = db
   \<or> metadata (reviewLogDeleted (handleReviewLogDeletedOperation op db q) [payload op ''reviewLogId''])
       = (Some (Integer q), Some (newDate (timestamp op)), Some (Text (clientId op)))"
proof -
  let ?m = "mergeRow (reviewLogDeletedValues op q) (reviewLogDeletedSet op q) lwwSetWhere (reviewLogDeleted db [payload op ''reviewLogId''])"
  have h: "handleReviewLogDeletedOperation op db q = db\<lparr>reviewLogDeleted := (reviewLogDeleted db)([payload op ''reviewLogId''] := ?m)\<rparr>"
    by (simp only: handleReviewLogDeletedOperation_def onConflictDoUpdate_mergeRow handler_keys)
  have "(reviewLogDeleted db)([payload op ''reviewLogId''] := ?m) = reviewLogDeleted db
     \<or> metadata (((reviewLogDeleted db)([payload op ''reviewLogId''] := ?m)) [payload op ''reviewLogId''])
         = (Some (Integer q), Some (newDate (timestamp op)), Some (Text (clientId op)))"
    by (rule written_generic)
      (simp_all add: reviewLogDeletedValues_def reviewLogDeletedSet_def defined_lookup defined_add_lookup)
  then show ?thesis
  proof
    assume "(reviewLogDeleted db)([payload op ''reviewLogId''] := ?m) = reviewLogDeleted db"
    with h show ?thesis by simp
  next
    assume "metadata (((reviewLogDeleted db)([payload op ''reviewLogId''] := ?m)) [payload op ''reviewLogId''])
         = (Some (Integer q), Some (newDate (timestamp op)), Some (Text (clientId op)))"
    with h show ?thesis by simp
  qed
qed

lemma written_cardContent:
  "handleCardContentOperation op db q = db
   \<or> metadata (cardContents (handleCardContentOperation op db q) [payload op ''cardId''])
       = (Some (Integer q), Some (newDate (timestamp op)), Some (Text (clientId op)))"
proof -
  let ?m = "mergeRow (cardContentValues op q) (cardContentSet op q) lwwSetWhere (cardContents db [payload op ''cardId''])"
  have h: "handleCardContentOperation op db q = db\<lparr>cardContents := (cardContents db)([payload op ''cardId''] := ?m)\<rparr>"
    by (simp only: handleCardContentOperation_def onConflictDoUpdate_mergeRow handler_keys)
  have "(cardContents db)([payload op ''cardId''] := ?m) = cardContents db
     \<or> metadata (((cardContents db)([payload op ''cardId''] := ?m)) [payload op ''cardId''])
         = (Some (Integer q), Some (newDate (timestamp op)), Some (Text (clientId op)))"
    by (rule written_generic)
      (simp_all add: cardContentValues_def cardContentSet_def defined_lookup defined_add_lookup)
  then show ?thesis
  proof
    assume "(cardContents db)([payload op ''cardId''] := ?m) = cardContents db"
    with h show ?thesis by simp
  next
    assume "metadata (((cardContents db)([payload op ''cardId''] := ?m)) [payload op ''cardId''])
         = (Some (Integer q), Some (newDate (timestamp op)), Some (Text (clientId op)))"
    with h show ?thesis by simp
  qed
qed

lemma written_cardDeleted:
  "handleCardDeletedOperation op db q = db
   \<or> metadata (cardDeleted (handleCardDeletedOperation op db q) [payload op ''cardId''])
       = (Some (Integer q), Some (newDate (timestamp op)), Some (Text (clientId op)))"
proof -
  let ?m = "mergeRow (cardDeletedValues op q) (cardDeletedSet op q) lwwSetWhere (cardDeleted db [payload op ''cardId''])"
  have h: "handleCardDeletedOperation op db q = db\<lparr>cardDeleted := (cardDeleted db)([payload op ''cardId''] := ?m)\<rparr>"
    by (simp only: handleCardDeletedOperation_def onConflictDoUpdate_mergeRow handler_keys)
  have "(cardDeleted db)([payload op ''cardId''] := ?m) = cardDeleted db
     \<or> metadata (((cardDeleted db)([payload op ''cardId''] := ?m)) [payload op ''cardId''])
         = (Some (Integer q), Some (newDate (timestamp op)), Some (Text (clientId op)))"
    by (rule written_generic)
      (simp_all add: cardDeletedValues_def cardDeletedSet_def defined_lookup defined_add_lookup)
  then show ?thesis
  proof
    assume "(cardDeleted db)([payload op ''cardId''] := ?m) = cardDeleted db"
    with h show ?thesis by simp
  next
    assume "metadata (((cardDeleted db)([payload op ''cardId''] := ?m)) [payload op ''cardId''])
         = (Some (Integer q), Some (newDate (timestamp op)), Some (Text (clientId op)))"
    with h show ?thesis by simp
  qed
qed

lemma written_cardBookmarked:
  "handleCardBookmarkedOperation op db q = db
   \<or> metadata (cardBookmarked (handleCardBookmarkedOperation op db q) [payload op ''cardId''])
       = (Some (Integer q), Some (newDate (timestamp op)), Some (Text (clientId op)))"
proof -
  let ?m = "mergeRow (cardBookmarkedValues op q) (cardBookmarkedSet op q) lwwSetWhere (cardBookmarked db [payload op ''cardId''])"
  have h: "handleCardBookmarkedOperation op db q = db\<lparr>cardBookmarked := (cardBookmarked db)([payload op ''cardId''] := ?m)\<rparr>"
    by (simp only: handleCardBookmarkedOperation_def onConflictDoUpdate_mergeRow handler_keys)
  have "(cardBookmarked db)([payload op ''cardId''] := ?m) = cardBookmarked db
     \<or> metadata (((cardBookmarked db)([payload op ''cardId''] := ?m)) [payload op ''cardId''])
         = (Some (Integer q), Some (newDate (timestamp op)), Some (Text (clientId op)))"
    by (rule written_generic)
      (simp_all add: cardBookmarkedValues_def cardBookmarkedSet_def defined_lookup defined_add_lookup)
  then show ?thesis
  proof
    assume "(cardBookmarked db)([payload op ''cardId''] := ?m) = cardBookmarked db"
    with h show ?thesis by simp
  next
    assume "metadata (((cardBookmarked db)([payload op ''cardId''] := ?m)) [payload op ''cardId''])
         = (Some (Integer q), Some (newDate (timestamp op)), Some (Text (clientId op)))"
    with h show ?thesis by simp
  qed
qed

lemma written_cardSuspended:
  "handleCardSuspendedOperation op db q = db
   \<or> metadata (cardSuspended (handleCardSuspendedOperation op db q) [payload op ''cardId''])
       = (Some (Integer q), Some (newDate (timestamp op)), Some (Text (clientId op)))"
proof -
  let ?m = "mergeRow (cardSuspendedValues op q) (cardSuspendedSet op q) lwwSetWhere (cardSuspended db [payload op ''cardId''])"
  have h: "handleCardSuspendedOperation op db q = db\<lparr>cardSuspended := (cardSuspended db)([payload op ''cardId''] := ?m)\<rparr>"
    by (simp only: handleCardSuspendedOperation_def onConflictDoUpdate_mergeRow handler_keys)
  have "(cardSuspended db)([payload op ''cardId''] := ?m) = cardSuspended db
     \<or> metadata (((cardSuspended db)([payload op ''cardId''] := ?m)) [payload op ''cardId''])
         = (Some (Integer q), Some (newDate (timestamp op)), Some (Text (clientId op)))"
    by (rule written_generic)
      (simp_all add: cardSuspendedValues_def cardSuspendedSet_def defined_lookup defined_add_lookup)
  then show ?thesis
  proof
    assume "(cardSuspended db)([payload op ''cardId''] := ?m) = cardSuspended db"
    with h show ?thesis by simp
  next
    assume "metadata (((cardSuspended db)([payload op ''cardId''] := ?m)) [payload op ''cardId''])
         = (Some (Integer q), Some (newDate (timestamp op)), Some (Text (clientId op)))"
    with h show ?thesis by simp
  qed
qed

lemma written_deck:
  "handleDeckOperation op db q = db
   \<or> metadata (decks (handleDeckOperation op db q) [payload op ''id''])
       = (Some (Integer q), Some (newDate (timestamp op)), Some (Text (clientId op)))"
proof -
  let ?m = "mergeRow (deckValues op q) (deckSet op q) lwwSetWhere (decks db [payload op ''id''])"
  have h: "handleDeckOperation op db q = db\<lparr>decks := (decks db)([payload op ''id''] := ?m)\<rparr>"
    by (simp only: handleDeckOperation_def onConflictDoUpdate_mergeRow handler_keys)
  have "(decks db)([payload op ''id''] := ?m) = decks db
     \<or> metadata (((decks db)([payload op ''id''] := ?m)) [payload op ''id''])
         = (Some (Integer q), Some (newDate (timestamp op)), Some (Text (clientId op)))"
    by (rule written_generic)
      (simp_all add: deckValues_def deckSet_def defined_lookup defined_add_lookup)
  then show ?thesis
  proof
    assume "(decks db)([payload op ''id''] := ?m) = decks db"
    with h show ?thesis by simp
  next
    assume "metadata (((decks db)([payload op ''id''] := ?m)) [payload op ''id''])
         = (Some (Integer q), Some (newDate (timestamp op)), Some (Text (clientId op)))"
    with h show ?thesis by simp
  qed
qed

lemma written_updateDeckCard:
  "handleUpdateDeckCardOperation op db q = db
   \<or> metadata (cardDecks (handleUpdateDeckCardOperation op db q) [payload op ''cardId'', payload op ''deckId''])
       = (Some (Integer q), Some (newDate (timestamp op)), Some (Text (clientId op)))"
proof -
  let ?m = "mergeRow (updateDeckCardValues op q) (updateDeckCardSet op q) clSetWhere (cardDecks db [payload op ''cardId'', payload op ''deckId''])"
  have h: "handleUpdateDeckCardOperation op db q = db\<lparr>cardDecks := (cardDecks db)([payload op ''cardId'', payload op ''deckId''] := ?m)\<rparr>"
    by (simp only: handleUpdateDeckCardOperation_def onConflictDoUpdate_mergeRow handler_keys)
  have "(cardDecks db)([payload op ''cardId'', payload op ''deckId''] := ?m) = cardDecks db
     \<or> metadata (((cardDecks db)([payload op ''cardId'', payload op ''deckId''] := ?m)) [payload op ''cardId'', payload op ''deckId''])
         = (Some (Integer q), Some (newDate (timestamp op)), Some (Text (clientId op)))"
    by (rule written_generic)
      (simp_all add: updateDeckCardValues_def updateDeckCardSet_def defined_lookup defined_add_lookup)
  then show ?thesis
  proof
    assume "(cardDecks db)([payload op ''cardId'', payload op ''deckId''] := ?m) = cardDecks db"
    with h show ?thesis by simp
  next
    assume "metadata (((cardDecks db)([payload op ''cardId'', payload op ''deckId''] := ?m)) [payload op ''cardId'', payload op ''deckId''])
         = (Some (Integer q), Some (newDate (timestamp op)), Some (Text (clientId op)))"
    with h show ?thesis by simp
  qed
qed

lemma written_reviewLog:
  "handleReviewLogOperation op db q = db
   \<or> (metadata (reviewLogs (handleReviewLogOperation op db q) [payload op ''id''])
         = (Some (Integer q), None, Some (Text (clientId op)))
       \<and> column (reviewLogs (handleReviewLogOperation op db q) [payload op ''id'']) ''createdAt''
         = Some (newDate (timestamp op)))"
proof -
  let ?m = "mergeRow (reviewLogValues op q) [] (\<lambda>excluded stored. False)
              (reviewLogs db [payload op ''id''])"
  have h: "handleReviewLogOperation op db q
      = db\<lparr>reviewLogs := (reviewLogs db)([payload op ''id''] := ?m)\<rparr>"
    by (simp only: handleReviewLogOperation_def onConflictDoNothing_mergeRow handler_keys)
  show ?thesis
  proof (cases rule: mergeRow_cases [of "reviewLogValues op q" "[]" "\<lambda>excluded stored. False"
        "reviewLogs db [payload op ''id'']"])
    case same
    with h show ?thesis by simp
  next
    case inserted
    with h show ?thesis
      by (simp add: metadata_def column_def reviewLogValues_def defined_lookup)
  next
    case (updated r)
    then show ?thesis by simp
  qed
qed

section \<open>Operations of one key commute up to the sequence number\<close>

lemma merged_type_cases:
  assumes "optype op \<in> set mergedTypes"
  obtains (lww) "optype op \<in> set lwwTypes" | (cl) "optype op = ''updateDeckCard''"
  using assms by (auto simp: mergedTypes_def)

lemma merged_type_known: "optype op \<in> set mergedTypes \<Longrightarrow> optype op \<in> set operationTypes"
  by (auto simp: mergedTypes_def lwwTypes_def operationTypes_def)

lemma complete_timestamp: "complete x \<Longrightarrow> validTimestamp (timestamp x)"
  by (simp add: complete_def)

lemma complete_counter:
  "complete y \<Longrightarrow> optype y = ''updateDeckCard'' \<Longrightarrow> payload y ''clCount'' \<noteq> Undefined"
  by (simp add: complete_def definesAll_def payloadFields_def)

lemma dominates_where:
  assumes "optype x \<in> set mergedTypes" and "optype y = optype x" and "dominates x y"
    and "validTimestamp (timestamp x)" and "validTimestamp (timestamp y)"
  shows "whereOf x (map_of (valuesOf x q)) (map_of (valuesOf y q'))"
  using assms(1)
proof (cases rule: merged_type_cases)
  case lww
  then have n: "optype x \<noteq> ''updateDeckCard''" by (auto simp: lwwTypes_def)
  from lww assms(2) have "optype y \<in> set lwwTypes" by simp
  with lww assms(3-5) n show ?thesis
    by (auto simp: whereOf_lww lwwSetWhere_def lww_values_cols newDate_def validTimestamp_def
        dominates_def less_prod_def)
next
  case cl
  with assms(2) have "optype y = ''updateDeckCard''" by simp
  with cl assms(3) show ?thesis
    by (auto simp: whereOf_cl clSetWhere_def cl_values_cols dominates_def split: val.splits)
qed

lemma whereOf_dropSeqNo:
  "whereOf x e (r(''seqNo'' := None)) = whereOf x e r"
  by (simp add: whereOf_def lwwSetWhere_def clSetWhere_def)

lemma values_seqNo:
  assumes "optype x \<in> set mergedTypes"
  shows "map_of (valuesOf x q) = (map_of (valuesOf x 0))(''seqNo'' \<mapsto> Integer q)"
    and "map_of (setOf x q) = (map_of (setOf x 0))(''seqNo'' \<mapsto> Integer q)"
  using merged_type_known [OF assms] assms
  by (cases rule: known_type_cases; intro ext;
      simp add: mergedTypes_def lwwTypes_def valuesOf_def setOf_def list_defs defined_lookup)+


lemma drop_update: "(m(k \<mapsto> v))(k := None) = m(k := None)"
  by simp

lemma drop_add: "(r(k := None) ++ m)(k := None) = (r ++ m)(k := None)"
  by (rule ext) (auto simp: map_add_def split: option.splits)

lemma drop_add_update: "(r ++ m(k \<mapsto> v))(k := None) = (r ++ m)(k := None)"
  by (rule ext) (auto simp: map_add_def split: option.splits)

lemma map_add_absorb: "dom m \<subseteq> dom n \<Longrightarrow> (r ++ m) ++ n = r ++ n"
  by (rule ext) (auto simp: map_add_def split: option.splits)

lemma astep_simps:
  "astep x None = Some ((map_of (valuesOf x 0))(''seqNo'' := None))"
  "astep x (Some r) =
     (if whereOf x (map_of (valuesOf x 0)) r
      then Some ((r ++ map_of (setOf x 0))(''seqNo'' := None))
      else Some (r(''seqNo'' := None)))"
  by (simp_all add: astep_def mergeRow_def dropSeqNo_def)

lemma strip_step:
  assumes "optype x \<in> set mergedTypes"
  shows "dropSeqNo (mergeRow (valuesOf x q) (setOf x q) (whereOf x) stored)
           = astep x (dropSeqNo stored)"
proof (cases stored)
  case None
  then show ?thesis
    by (simp add: astep_simps dropSeqNo_def mergeRow_def values_seqNo(1) [OF assms, of q])
next
  case (Some r)
  have w: "whereOf x (map_of (valuesOf x q)) r
      = whereOf x (map_of (valuesOf x 0)) (r(''seqNo'' := None))"
    by (simp add: whereOf_dropSeqNo whereOf_values [where q = q and q' = 0])
  have "(r ++ map_of (setOf x q))(''seqNo'' := None)
      = (r(''seqNo'' := None) ++ map_of (setOf x 0))(''seqNo'' := None)"
    by (simp only: values_seqNo(2) [OF assms, of q] drop_add_update drop_add)
  with Some w show ?thesis
    by (simp add: astep_simps dropSeqNo_def mergeRow_def)
qed

lemma set_dom:
  assumes "optype x \<in> set mergedTypes" and "optype y = optype x" and "complete x"
  shows "dom (map_of (setOf y q)) \<subseteq> dom (map_of (setOf x q'))"
proof
  fix c
  assume "c \<in> dom (map_of (setOf y q))"
  with merged_type_known [OF assms(1)] assms show "c \<in> dom (map_of (setOf x q'))"
    by (cases rule: known_type_cases;
        simp add: domIff complete_def definesAll_def payloadFields_def mergedTypes_def
          lwwTypes_def setOf_def list_defs defined_lookup split: if_splits)
qed

lemma targetKey_cases:
  "optype x = ''card'' \<Longrightarrow> targetKey x = [payload x ''id'']"
  "optype x = ''deck'' \<Longrightarrow> targetKey x = [payload x ''id'']"
  "optype x = ''reviewLogDeleted'' \<Longrightarrow> targetKey x = [payload x ''reviewLogId'']"
  "optype x = ''cardContent'' \<Longrightarrow> targetKey x = [payload x ''cardId'']"
  "optype x = ''cardDeleted'' \<Longrightarrow> targetKey x = [payload x ''cardId'']"
  "optype x = ''cardBookmarked'' \<Longrightarrow> targetKey x = [payload x ''cardId'']"
  "optype x = ''cardSuspended'' \<Longrightarrow> targetKey x = [payload x ''cardId'']"
  "optype x = ''updateDeckCard'' \<Longrightarrow> targetKey x = [payload x ''cardId'', payload x ''deckId'']"
  by (simp_all add: targetKey_def)

lemma values_overwritten:
  assumes "optype x \<in> set mergedTypes" and "optype y = optype x"
    and "targetKey y = targetKey x" and "userId y = userId x" and "complete x"
  shows "map_of (valuesOf y q) ++ map_of (setOf x q') = map_of (valuesOf x q')"
  using merged_type_known [OF assms(1)] assms
proof (cases rule: known_type_cases)
  case 1
  with assms show ?thesis
    by (intro ext) (simp add: targetKey_cases valuesOf_def setOf_def cardValues_def
        cardSet_def complete_def definesAll_def payloadFields_def defined_lookup
        defined_add_lookup)
next
  case 2
  with assms(1) show ?thesis by (simp add: mergedTypes_def lwwTypes_def)
next
  case 3
  with assms show ?thesis
    by (intro ext) (simp add: targetKey_cases valuesOf_def setOf_def reviewLogDeletedValues_def
        reviewLogDeletedSet_def complete_def definesAll_def payloadFields_def defined_lookup
        defined_add_lookup)
next
  case 4
  with assms show ?thesis
    by (intro ext) (simp add: targetKey_cases valuesOf_def setOf_def cardContentValues_def
        cardContentSet_def complete_def definesAll_def payloadFields_def defined_lookup
        defined_add_lookup)
next
  case 5
  with assms show ?thesis
    by (intro ext) (simp add: targetKey_cases valuesOf_def setOf_def cardDeletedValues_def
        cardDeletedSet_def complete_def definesAll_def payloadFields_def defined_lookup
        defined_add_lookup)
next
  case 6
  with assms show ?thesis
    by (intro ext) (simp add: targetKey_cases valuesOf_def setOf_def cardBookmarkedValues_def
        cardBookmarkedSet_def complete_def definesAll_def payloadFields_def defined_lookup
        defined_add_lookup)
next
  case 7
  with assms show ?thesis
    by (intro ext) (simp add: targetKey_cases valuesOf_def setOf_def cardSuspendedValues_def
        cardSuspendedSet_def complete_def definesAll_def payloadFields_def defined_lookup
        defined_add_lookup)
next
  case 8
  with assms show ?thesis
    by (intro ext) (simp add: targetKey_cases valuesOf_def setOf_def deckValues_def
        deckSet_def complete_def definesAll_def payloadFields_def defined_lookup
        defined_add_lookup)
next
  case 9
  with assms show ?thesis
    by (intro ext) (simp add: targetKey_cases valuesOf_def setOf_def updateDeckCardValues_def
        updateDeckCardSet_def complete_def definesAll_def payloadFields_def defined_lookup
        defined_add_lookup)
qed


lemma astep_commute_dominates:
  assumes k: "optype x \<in> set mergedTypes" and t: "optype y = optype x"
    and key: "targetKey y = targetKey x" and u: "userId y = userId x"
    and d: "dominates x y" and cx: "complete x" and cy: "complete y"
  shows "astep x (astep y stored) = astep y (astep x stored)"
proof -
  let ?vx = "map_of (valuesOf x 0)" and ?vy = "map_of (valuesOf y 0)"
  let ?sx = "map_of (setOf x 0)" and ?sy = "map_of (setOf y 0)"
  have wy: "whereOf y = whereOf x" using t by (rule whereOf_same_type)
  have xy: "whereOf x ?vx ?vy"
    using k t d complete_timestamp [OF cx] complete_timestamp [OF cy] by (rule dominates_where)
  have yx: "\<not> whereOf x ?vy ?vx"
  proof
    assume "whereOf x ?vy ?vx"
    from whereOf_trans [OF xy this] show False by simp
  qed
  have up_y: "whereOf x e (r ++ ?sy) = whereOf x e ?vy" for e r
    by (rule whereOf_updated [OF t complete_counter [OF cy]])
  have up_x: "whereOf x e (r ++ ?sx) = whereOf x e ?vx" for e r
    by (rule whereOf_updated [OF refl complete_counter [OF cx]])
  have dom: "dom ?sy \<subseteq> dom ?sx" by (rule set_dom [OF k t cx])
  have e1: "((?vy(''seqNo'' := None)) ++ ?sx)(''seqNo'' := None) = ?vx(''seqNo'' := None)"
    by (simp only: drop_add values_overwritten [OF k t key u cx])
  have e2: "(((r ++ ?sy)(''seqNo'' := None)) ++ ?sx)(''seqNo'' := None)
      = (r ++ ?sx)(''seqNo'' := None)" for r
    by (simp only: drop_add map_add_absorb [OF dom])
  show ?thesis
  proof (cases stored)
    case None
    then show ?thesis
      by (simp add: astep_simps wy whereOf_dropSeqNo xy yx e1)
  next
    case (Some r)
    show ?thesis
    proof (cases "whereOf x ?vy r")
      case True
      from whereOf_trans [OF xy True] have "whereOf x ?vx r" .
      with True Some show ?thesis
        by (simp add: astep_simps wy whereOf_dropSeqNo up_y up_x xy yx e2)
    next
      case False
      with Some show ?thesis
        by (simp add: astep_simps wy whereOf_dropSeqNo up_y up_x xy yx drop_add)
    qed
  qed
qed

lemma astep_commute:
  assumes "optype x \<in> set mergedTypes" and "optype y = optype x"
    and "targetKey y = targetKey x" and "userId y = userId x"
    and "x = y \<or> dominates x y \<or> dominates y x"
    and "complete x" and "complete y"
  shows "astep x \<circ> astep y = astep y \<circ> astep x"
proof (rule ext)
  fix stored
  from assms(5) consider "x = y" | "dominates x y" | "dominates y x" by blast
  then show "(astep x \<circ> astep y) stored = (astep y \<circ> astep x) stored"
  proof cases
    case 1
    then show ?thesis by simp
  next
    case 2
    from astep_commute_dominates [OF assms(1-4) 2 assms(6,7)] show ?thesis by simp
  next
    case 3
    from assms(1,2) have "optype y \<in> set mergedTypes" by simp
    from astep_commute_dominates [OF this assms(2) [symmetric] assms(3) [symmetric]
        assms(4) [symmetric] 3 assms(7,6)]
    show ?thesis by simp
  qed
qed

lemma applyOps_fold:
  assumes "optype op0 \<in> set mergedTypes"
    and "\<forall>x\<in>set ops. optype x = optype op0 \<and> targetKey x = targetKey op0 \<and> userId x = userId op0"
    and "users db (userId op0) = Some s"
  shows "\<exists>db1. applyOps ops db = Inr db1
     \<and> dropSeqNo (targetRow op0 db1) = fold astep ops (dropSeqNo (targetRow op0 db))"
  using assms(2,3)
proof (induction ops arbitrary: db s)
  case Nil
  then show ?case by simp
next
  case (Cons x ops)
  from Cons.prems(1) have tx: "optype x = optype op0" and kx: "targetKey x = targetKey op0"
    and ux: "userId x = userId op0" by simp_all
  from tx assms(1) have mx: "optype x \<in> set mergedTypes" by simp
  let ?db' = "merged x s (reserved db (userId op0) s)"
  have h: "handleClientOperation x db Executes = (Inr (), ?db')"
    using handleClientOperation_merged [of db x s] Cons.prems(2) merged_type_known [OF mx]
    by (simp add: ux)
  have "users ?db' (userId op0) = Some (s + 1)" by (simp add: users_reserved)
  moreover from Cons.prems(1) have "\<forall>x\<in>set ops. optype x = optype op0
      \<and> targetKey x = targetKey op0 \<and> userId x = userId op0" by simp
  ultimately obtain db1 where a: "applyOps ops ?db' = Inr db1"
    and f: "dropSeqNo (targetRow op0 db1) = fold astep ops (dropSeqNo (targetRow op0 ?db'))"
    using Cons.IH by blast
  have "targetRow op0 ?db'
      = mergeRow (valuesOf x s) (setOf x s) (whereOf x) (targetRow op0 db)"
    using merged_type_known [OF assms(1)]
    by (simp add: merged_def targetRow_writeTarget tx kx)
  then have "dropSeqNo (targetRow op0 ?db') = astep x (dropSeqNo (targetRow op0 db))"
    by (simp add: strip_step [OF mx])
  with a f h show ?case by simp
qed

section \<open>Evaluating sequences of two operations\<close>

lemmas eval_defs = finalRow_def column_def handleClientOperation_def reserveSeqNo_def await_def
  handler_defs onConflictDoUpdate_def onConflictDoNothing_def keyOf_def Let_def list_defs
  lwwSetWhere_def newDate_def mkOp_def obj_def userDb_def targetRow_def targetTable_def
  targetKey_def less_char_def defined_list cardFields_def newCardFields_def

lemma seqNo_ab:
  "column (finalRow [cardOpA, cardOpB] (userDb [''u'' \<mapsto> 1]) cardOpA) ''seqNo'' = Some (Integer 2)"
  by (simp add: eval_defs cardOpA_def cardOpB_def)

lemma seqNo_ba:
  "column (finalRow [cardOpB, cardOpA] (userDb [''u'' \<mapsto> 1]) cardOpA) ''seqNo'' = Some (Integer 1)"
  by (simp add: eval_defs cardOpA_def cardOpB_def)

lemma tie_a:
  "column (finalRow [cardOpA, cardOpA2] (userDb [''u'' \<mapsto> 1]) cardOpA) ''stability''
     = Some (Number 1)"
  by (simp add: eval_defs cardOpA_def cardOpA2_def)

lemma tie_b:
  "column (finalRow [cardOpA2, cardOpA] (userDb [''u'' \<mapsto> 1]) cardOpA) ''stability''
     = Some (Number 3)"
  by (simp add: eval_defs cardOpA_def cardOpA2_def)

lemma owner_a:
  "column (finalRow [cardOpA, cardOpV] (userDb [''u'' \<mapsto> 1, ''v'' \<mapsto> 1]) cardOpA) ''userId''
     = Some (Text ''u'')"
  by (simp add: eval_defs cardOpA_def cardOpV_def)

lemma owner_b:
  "column (finalRow [cardOpV, cardOpA] (userDb [''u'' \<mapsto> 1, ''v'' \<mapsto> 1]) cardOpA) ''userId''
     = Some (Text ''v'')"
  by (simp add: eval_defs cardOpA_def cardOpV_def)

lemma log_a:
  "column (finalRow [reviewLogOp, reviewLogOp2] (userDb [''u'' \<mapsto> 1]) reviewLogOp) ''grade''
     = Some (Integer 3)"
  by (simp add: eval_defs reviewLogOp_def reviewLogOp2_def)

lemma log_b:
  "column (finalRow [reviewLogOp2, reviewLogOp] (userDb [''u'' \<mapsto> 1]) reviewLogOp) ''grade''
     = Some (Integer 4)"
  by (simp add: eval_defs reviewLogOp_def reviewLogOp2_def)

lemma absent_a:
  "column (finalRow [cardOpA, cardOpNew] (userDb [''u'' \<mapsto> 1]) cardOpA) ''last_review''
     = Some (Date 50)"
  by (simp add: eval_defs cardOpA_def cardOpNew_def)

lemma absent_b:
  "column (finalRow [cardOpNew, cardOpA] (userDb [''u'' \<mapsto> 1]) cardOpA) ''last_review'' = None"
  by (simp add: eval_defs cardOpA_def cardOpNew_def)

section \<open>The sequence allocator returns the value before the increment\<close>

text \<open>
  Claim C2. For a user whose row holds \<open>nextSeqNo = s\<close>, \<open>reserveSeqNo\<close> with length \<open>n\<close>
  returns \<open>s\<close>, the value before the increment, and leaves \<open>s + n\<close> in the row; nothing
  else of the database changes. The equation holds for every \<open>n\<close>, so for every \<open>n \<ge> 1\<close>.
\<close>

theorem reserveSeqNo_returns_previous:
  assumes "users db uid = Some s"
  shows "reserveSeqNo uid db n = Inr (s, db\<lparr>users := (users db)(uid \<mapsto> s + n)\<rparr>)"
  using assms by (simp add: reserveSeqNo_def)

text \<open>Scenario A: reserving three numbers from \<open>nextSeqNo = 5\<close> returns 5 and leaves 8.\<close>

theorem reserveSeqNo_returns_previous_witness:
  "reserveSeqNo ''u'' (userDb [''u'' \<mapsto> 5]) 3 = Inr (5, userDb [''u'' \<mapsto> 8])"
  using reserveSeqNo_returns_previous [of "userDb [''u'' \<mapsto> 5]" "''u''" 5 3]
  by (simp add: userDb_def)

section \<open>The batch cap\<close>

text \<open>
  Claim C8. \<open>validateOpCount\<close> succeeds exactly on the lists of at most 10000 operations; when
  it does not succeed its error is the string \<^verbatim>\<open>Too many operations\<close>; and two lists of the same
  length get the same result, whatever their operations are.
\<close>

theorem validateOpCount_cap:
  "(validateOpCount ops = Success \<longleftrightarrow> length ops \<le> 10000)
   \<and> (validateOpCount ops \<noteq> Success \<longrightarrow>
        validateOpCount ops = Failure ''Too many operations'')
   \<and> (length ops = length ops' \<longrightarrow> validateOpCount ops = validateOpCount ops')"
  by (simp add: validateOpCount_def MAX_OPS_def TOO_MANY_OPS_ERROR_MSG_def)

text \<open>Scenario F: 10000 operations pass, 10001 do not, whatever they are.\<close>

theorem validateOpCount_cap_witness:
  "validateOpCount (replicate 10000 (mkOp ''card'' 0 ''A'' ''u'' [])) = Success
   \<and> validateOpCount (replicate 10001 (mkOp ''card'' 0 ''A'' ''u'' []))
       = Failure ''Too many operations''
   \<and> validateOpCount (replicate 10001 (mkOp ''nonsense'' 7 ''B'' ''v'' []))
       = validateOpCount (replicate 10001 (mkOp ''card'' 0 ''A'' ''u'' []))"
  using validateOpCount_cap [of "replicate 10000 (mkOp ''card'' 0 ''A'' ''u'' [])"
      "replicate 10000 (mkOp ''card'' 0 ''A'' ''u'' [])"]
    validateOpCount_cap [of "replicate 10001 (mkOp ''nonsense'' 7 ''B'' ''v'' [])"
      "replicate 10001 (mkOp ''card'' 0 ''A'' ''u'' [])"]
  by auto

section \<open>The dispatcher: unknown discriminators and routing\<close>

text \<open>
  Claim C9, as amended. The sequence number is reserved before the discriminator is looked at.
  When the reservation succeeds (the user's row exists, with counter \<open>s\<close>), an operation whose
  type is none of the nine fails with \<open>UnknownOperationType\<close>, leaving the database as the
  reservation left it; and an operation of each of the nine types is handed, with the reserved
  number \<open>s\<close>, to the handler of that type and to no other.
\<close>

theorem dispatch_after_reservation:
  assumes "users db (userId op) = Some s"
  shows "(optype op \<notin> set operationTypes \<longrightarrow>
            handleClientOperation op db stmt
              = (Inl UnknownOperationType, reserved db (userId op) s))
    \<and> (optype op = ''card'' \<longrightarrow>
          handleClientOperation op db stmt
            = await stmt (reserved db (userId op) s)
                (handleCardOperation op (reserved db (userId op) s) s))
    \<and> (optype op = ''reviewLog'' \<longrightarrow>
          handleClientOperation op db stmt
            = await stmt (reserved db (userId op) s)
                (handleReviewLogOperation op (reserved db (userId op) s) s))
    \<and> (optype op = ''reviewLogDeleted'' \<longrightarrow>
          handleClientOperation op db stmt
            = await stmt (reserved db (userId op) s)
                (handleReviewLogDeletedOperation op (reserved db (userId op) s) s))
    \<and> (optype op = ''cardContent'' \<longrightarrow>
          handleClientOperation op db stmt
            = await stmt (reserved db (userId op) s)
                (handleCardContentOperation op (reserved db (userId op) s) s))
    \<and> (optype op = ''cardDeleted'' \<longrightarrow>
          handleClientOperation op db stmt
            = await stmt (reserved db (userId op) s)
                (handleCardDeletedOperation op (reserved db (userId op) s) s))
    \<and> (optype op = ''cardBookmarked'' \<longrightarrow>
          handleClientOperation op db stmt
            = await stmt (reserved db (userId op) s)
                (handleCardBookmarkedOperation op (reserved db (userId op) s) s))
    \<and> (optype op = ''cardSuspended'' \<longrightarrow>
          handleClientOperation op db stmt
            = await stmt (reserved db (userId op) s)
                (handleCardSuspendedOperation op (reserved db (userId op) s) s))
    \<and> (optype op = ''deck'' \<longrightarrow>
          handleClientOperation op db stmt
            = await stmt (reserved db (userId op) s)
                (handleDeckOperation op (reserved db (userId op) s) s))
    \<and> (optype op = ''updateDeckCard'' \<longrightarrow>
          handleClientOperation op db stmt
            = await stmt (reserved db (userId op) s)
                (handleUpdateDeckCardOperation op (reserved db (userId op) s) s))"
  unfolding handleClientOperation_reserved [OF assms] Let_def operationTypes_def
  by simp

text \<open>
  An unknown type after a successful reservation, and a \<^verbatim>\<open>deck\<close> operation routed to
  \<open>handleDeckOperation\<close> with the reserved number 5.
\<close>

theorem dispatch_after_reservation_witness:
  "handleClientOperation (mkOp ''nonsense'' 0 ''A'' ''u'' []) (userDb [''u'' \<mapsto> 5]) Executes
     = (Inl UnknownOperationType, userDb [''u'' \<mapsto> 6])
   \<and> handleClientOperation (mkOp ''deck'' 0 ''A'' ''u'' [(''id'', Text ''d1'')])
         (userDb [''u'' \<mapsto> 5]) Executes
     = (Inr (), handleDeckOperation (mkOp ''deck'' 0 ''A'' ''u'' [(''id'', Text ''d1'')])
                  (userDb [''u'' \<mapsto> 6]) 5)"
  using dispatch_after_reservation [of "userDb [''u'' \<mapsto> 5]"
      "mkOp ''nonsense'' 0 ''A'' ''u'' []" 5 Executes]
    dispatch_after_reservation [of "userDb [''u'' \<mapsto> 5]"
      "mkOp ''deck'' 0 ''A'' ''u'' [(''id'', Text ''d1'')]" 5 Executes]
  by (simp add: mkOp_def operationTypes_def userDb_def reserved_def await_def)

text \<open>
  The claim as the specification states it fails where the reservation fails: an operation of
  an unknown type from a user without a row fails with \<open>SequenceAllocationFailed\<close>, the error
  of \<open>reserveSeqNo\<close>, and never reaches the branch on its type.
\<close>

theorem unknown_type_counterexample:
  "optype (mkOp ''nonsense'' 0 ''A'' ''ghost'' []) \<notin> set operationTypes
   \<and> handleClientOperation (mkOp ''nonsense'' 0 ''A'' ''ghost'' []) (userDb Map.empty) Executes
       = (Inl SequenceAllocationFailed, userDb Map.empty)
   \<and> Inl SequenceAllocationFailed \<noteq> (Inl UnknownOperationType :: error + unit)"
  by (simp add: mkOp_def operationTypes_def handleClientOperation_def reserveSeqNo_def userDb_def)

section \<open>A failed call burns its sequence number and changes nothing else\<close>

text \<open>
  Claim C10. In every call of \<open>handleClientOperation\<close> whose reservation succeeds, with number
  \<open>seqNo\<close>, the user's counter was \<open>seqNo\<close> and is \<open>seqNo + 1\<close> afterwards, no other counter
  changes, and when the call fails (its result is not \<open>Inr ()\<close>) the database is exactly the one
  the reservation left: no table has a row inserted or modified. A call fails in that way when
  the type is unknown and when the storage engine rejects the handler's statement.
\<close>

theorem burned_seqNo:
  assumes "reserveSeqNo (userId op) db 1 = Inr (seqNo, db1)"
  shows "users db (userId op) = Some seqNo
    \<and> db1 = db\<lparr>users := (users db)(userId op \<mapsto> seqNo + 1)\<rparr>
    \<and> users (snd (handleClientOperation op db stmt)) = (users db)(userId op \<mapsto> seqNo + 1)
    \<and> (fst (handleClientOperation op db stmt) \<noteq> Inr () \<longrightarrow>
          snd (handleClientOperation op db stmt) = db1)
    \<and> (optype op \<notin> set operationTypes \<or> stmt = Rejects \<longrightarrow>
          fst (handleClientOperation op db stmt) \<noteq> Inr ())"
proof -
  from assms have u: "users db (userId op) = Some seqNo"
    and d: "db1 = reserved db (userId op) seqNo"
    by (auto simp: reserveSeqNo_def reserved_def split: option.splits)
  show ?thesis
    unfolding handleClientOperation_reserved [OF u] d Let_def
    by (cases stmt) (simp_all add: await_def reserved_def u operationTypes_def)
qed

text \<open>
  From a counter of 5: an unknown type, and a \<^verbatim>\<open>card\<close> operation whose statement is rejected.
  Both fail, and both leave the database with the counter at 6 and no row.
\<close>

theorem burned_seqNo_witness:
  "reserveSeqNo ''u'' (userDb [''u'' \<mapsto> 5]) 1 = Inr (5, userDb [''u'' \<mapsto> 6])
   \<and> handleClientOperation (mkOp ''nonsense'' 0 ''A'' ''u'' []) (userDb [''u'' \<mapsto> 5]) Executes
       = (Inl UnknownOperationType, userDb [''u'' \<mapsto> 6])
   \<and> handleClientOperation (mkOp ''card'' 0 ''A'' ''u'' [(''id'', Text ''c1'')])
         (userDb [''u'' \<mapsto> 5]) Rejects
       = (Inl StorageError, userDb [''u'' \<mapsto> 6])"
proof -
  have r: "reserveSeqNo ''u'' (userDb [''u'' \<mapsto> 5]) 1 = Inr (5, userDb [''u'' \<mapsto> 6])"
    by (simp add: reserveSeqNo_def userDb_def)
  have a: "reserveSeqNo (userId (mkOp ''nonsense'' 0 ''A'' ''u'' [])) (userDb [''u'' \<mapsto> 5]) 1
      = Inr (5, userDb [''u'' \<mapsto> 6])"
    using r by (simp add: mkOp_def)
  have b: "reserveSeqNo (userId (mkOp ''card'' 0 ''A'' ''u'' [(''id'', Text ''c1'')]))
      (userDb [''u'' \<mapsto> 5]) 1 = Inr (5, userDb [''u'' \<mapsto> 6])"
    using r by (simp add: mkOp_def)
  have "handleClientOperation (mkOp ''nonsense'' 0 ''A'' ''u'' []) (userDb [''u'' \<mapsto> 5]) Executes
       = (Inl UnknownOperationType, userDb [''u'' \<mapsto> 6])"
    using burned_seqNo [OF a, of Executes]
    by (simp add: handleClientOperation_def r mkOp_def)
  moreover have "handleClientOperation (mkOp ''card'' 0 ''A'' ''u'' [(''id'', Text ''c1'')])
         (userDb [''u'' \<mapsto> 5]) Rejects = (Inl StorageError, userDb [''u'' \<mapsto> 6])"
    using burned_seqNo [OF b, of Rejects]
    by (simp add: handleClientOperation_def r mkOp_def await_def)
  ultimately show ?thesis using r by simp
qed

section \<open>The counter of a card in a deck\<close>

text \<open>
  Claim C4. When a row exists for the pair of card and deck, with counter \<open>c\<close>, an
  \<^verbatim>\<open>updateDeckCard\<close> operation with counter \<open>n\<close> installs its four columns (\<open>clCount\<close>,
  \<open>lastModified\<close>, \<open>lastModifiedClient\<close>, \<open>seqNo\<close>) if \<open>c < n\<close> and changes nothing otherwise, so
  an equal counter is a no-op; the database changes if and only if \<open>c < n\<close>, whatever the
  timestamps and clients are. Scenario E: counters 1, 2, 1 applied in this order leave the
  counter 2 (with the row of the second operation, though its timestamp is the oldest).
\<close>

theorem updateDeckCard_counter:
  assumes "cardDecks db [payload op ''cardId'', payload op ''deckId''] = Some stored"
    and "stored ''clCount'' = Some (Integer c)"
    and "payload op ''clCount'' = Integer n"
  shows "handleUpdateDeckCardOperation op db seqNo =
      (if c < n then
         db\<lparr>cardDecks := (cardDecks db)([payload op ''cardId'', payload op ''deckId''] \<mapsto>
              stored(''seqNo'' \<mapsto> Integer seqNo, ''lastModifiedClient'' \<mapsto> Text (clientId op),
                ''lastModified'' \<mapsto> newDate (timestamp op), ''clCount'' \<mapsto> Integer n))\<rparr>
       else db)
    \<and> (handleUpdateDeckCardOperation op db seqNo \<noteq> db \<longleftrightarrow> c < n)
    \<and> map_sum id cardDecks
          (applyOps [deckCardOp 1 100 ''A'', deckCardOp 2 50 ''A'', deckCardOp 1 200 ''B'']
             (userDb [''u'' \<mapsto> 1]))
        = Inr [[Text ''c1'', Text ''d1''] \<mapsto>
               [''cardId'' \<mapsto> Text ''c1'', ''deckId'' \<mapsto> Text ''d1'', ''seqNo'' \<mapsto> Integer 2,
                ''clCount'' \<mapsto> Integer 2, ''lastModified'' \<mapsto> Date 50,
                ''lastModifiedClient'' \<mapsto> Text ''A'']]"
proof -
  let ?k = "[payload op ''cardId'', payload op ''deckId'']"
  let ?new = "stored(''seqNo'' \<mapsto> Integer seqNo, ''lastModifiedClient'' \<mapsto> Text (clientId op),
                ''lastModified'' \<mapsto> newDate (timestamp op), ''clCount'' \<mapsto> Integer n)"
  have e: "handleUpdateDeckCardOperation op db seqNo =
      (if c < n then db\<lparr>cardDecks := (cardDecks db)(?k \<mapsto> ?new)\<rparr> else db)"
    by (rule updateDeckCard_exists [OF assms])
  have "handleUpdateDeckCardOperation op db seqNo \<noteq> db" if lt: "c < n"
  proof
    assume "handleUpdateDeckCardOperation op db seqNo = db"
    with e lt have "cardDecks (db\<lparr>cardDecks := (cardDecks db)(?k \<mapsto> ?new)\<rparr>) ?k = cardDecks db ?k"
      by simp
    with assms(1) have "?new = stored" by simp
    then have "?new ''clCount'' = stored ''clCount''" by (rule arg_cong)
    with assms(2) lt show False by simp
  qed
  moreover have "handleUpdateDeckCardOperation op db seqNo = db" if "\<not> c < n"
    using e that by simp
  moreover have "map_sum id cardDecks
          (applyOps [deckCardOp 1 100 ''A'', deckCardOp 2 50 ''A'', deckCardOp 1 200 ''B'']
             (userDb [''u'' \<mapsto> 1]))
        = Inr [[Text ''c1'', Text ''d1''] \<mapsto>
               [''cardId'' \<mapsto> Text ''c1'', ''deckId'' \<mapsto> Text ''d1'', ''seqNo'' \<mapsto> Integer 2,
                ''clCount'' \<mapsto> Integer 2, ''lastModified'' \<mapsto> Date 50,
                ''lastModifiedClient'' \<mapsto> Text ''A'']]"
    by (simp add: handleClientOperation_def reserveSeqNo_def await_def userDb_def deckCardOp_def
        mkOp_def handleUpdateDeckCardOperation_def onConflictDoUpdate_def updateDeckCardValues_def
        updateDeckCardSet_def clSetWhere_def obj_def newDate_def fun_upd_twist keyOf_def
        defined_list)
  ultimately show ?thesis using e by blast
qed

text \<open>
  On a stored counter of 2: an operation with counter 2 changes nothing although its timestamp
  and client are greater, and an operation with counter 3 is installed although they are smaller.
\<close>

theorem updateDeckCard_counter_witness:
  "handleUpdateDeckCardOperation (deckCardOp 2 999 ''Z'')
       ((userDb [''u'' \<mapsto> 3])\<lparr>cardDecks := [[Text ''c1'', Text ''d1''] \<mapsto>
           map_of (updateDeckCardValues (deckCardOp 2 50 ''A'') 2)]\<rparr>) 7
     = (userDb [''u'' \<mapsto> 3])\<lparr>cardDecks := [[Text ''c1'', Text ''d1''] \<mapsto>
           map_of (updateDeckCardValues (deckCardOp 2 50 ''A'') 2)]\<rparr>
   \<and> handleUpdateDeckCardOperation (deckCardOp 3 0 ''0'')
       ((userDb [''u'' \<mapsto> 3])\<lparr>cardDecks := [[Text ''c1'', Text ''d1''] \<mapsto>
           map_of (updateDeckCardValues (deckCardOp 2 50 ''A'') 2)]\<rparr>) 7
     \<noteq> (userDb [''u'' \<mapsto> 3])\<lparr>cardDecks := [[Text ''c1'', Text ''d1''] \<mapsto>
           map_of (updateDeckCardValues (deckCardOp 2 50 ''A'') 2)]\<rparr>"
proof -
  let ?st = "map_of (updateDeckCardValues (deckCardOp 2 50 ''A'') 2)"
  let ?db = "(userDb [''u'' \<mapsto> 3])\<lparr>cardDecks := [[Text ''c1'', Text ''d1''] \<mapsto> ?st]\<rparr>"
  have k: "cardDecks ?db [payload (deckCardOp m t cl) ''cardId'', payload (deckCardOp m t cl) ''deckId'']
      = Some ?st" for m t cl
    by (simp add: deckCardOp_def mkOp_def obj_def)
  have c: "?st ''clCount'' = Some (Integer 2)"
    by (simp add: deckCardOp_def mkOp_def obj_def updateDeckCardValues_def defined_list)
  have n: "payload (deckCardOp m t cl) ''clCount'' = Integer m" for m t cl
    by (simp add: deckCardOp_def mkOp_def obj_def)
  from updateDeckCard_counter [OF k c n, of 2 999 "''Z''" 7, THEN conjunct1]
  have "handleUpdateDeckCardOperation (deckCardOp 2 999 ''Z'') ?db 7 = ?db" by simp
  moreover from updateDeckCard_counter [OF k c n, of 3 0 "''0''" 7, THEN conjunct2, THEN conjunct1]
  have "handleUpdateDeckCardOperation (deckCardOp 3 0 ''0'') ?db 7 \<noteq> ?db" by simp
  ultimately show ?thesis by (rule conjI)
qed


section \<open>The review log is a grow-only set\<close>

text \<open>
  Claim C5. Let a \<^verbatim>\<open>reviewLog\<close> operation be applied \<open>n + 1\<close> times in a row by a user whose
  counter is \<open>s\<close>. No application raises: the sequence returns a database. That database is
  the one of the first application, \<open>handleReviewLogOperation op db s\<close>, but for the user's
  counter, so no later application modifies any field of any row; and the row of the
  operation's id is there: the row written by the first application, with its sequence number
  \<open>s\<close>, when the id was fresh, and the row stored before otherwise. A table has at most one row
  for a key, so there is exactly one row of that id.
\<close>

theorem reviewLog_grow_only:
  assumes "optype op = ''reviewLog''" and "users db (userId op) = Some s"
  shows "applyOps (replicate (Suc n) op) db
           = Inr ((handleReviewLogOperation op db s)
                    \<lparr>users := (users db)(userId op \<mapsto> s + 1 + int n)\<rparr>)
       \<and> reviewLogs (handleReviewLogOperation op db s) [payload op ''id'']
           = (case reviewLogs db [payload op ''id''] of
                None \<Rightarrow> Some (map_of (reviewLogValues op s))
              | Some stored \<Rightarrow> Some stored)"
proof -
  let ?db1 = "merged op s (reserved db (userId op) s)"
  have k: "optype op \<in> set operationTypes" using assms(1) by (simp add: operationTypes_def)
  have a: "absorbed op ?db1" using k by (rule merged_absorbed)
  have u1: "users ?db1 (userId op) = Some (s + 1)" by (simp add: users_reserved)
  have m: "?db1 = (handleReviewLogOperation op db s)\<lparr>users := (users db)(userId op \<mapsto> s + 1)\<rparr>"
    using assms(1)
    by (simp add: handlers_merged(2) [symmetric] handleReviewLogOperation_def reserved_def)
  have "applyOps (replicate (Suc n) op) db = applyOps (replicate n op) ?db1"
    using assms(2) k by (simp add: handleClientOperation_merged)
  also have "\<dots> = Inr (?db1\<lparr>users := (users ?db1)(userId op \<mapsto> s + 1 + int n)\<rparr>)"
    by (rule replicate_absorbed [OF a u1])
  finally have "applyOps (replicate (Suc n) op) db
           = Inr ((handleReviewLogOperation op db s)
                    \<lparr>users := (users db)(userId op \<mapsto> s + 1 + int n)\<rparr>)"
    by (simp add: m)
  moreover have "reviewLogs (handleReviewLogOperation op db s) [payload op ''id'']
           = (case reviewLogs db [payload op ''id''] of
                None \<Rightarrow> Some (map_of (reviewLogValues op s))
              | Some stored \<Rightarrow> Some stored)"
    by (simp add: handleReviewLogOperation_def onConflictDoNothing_def handler_keys Let_def
        split: option.splits)
  ultimately show ?thesis by simp
qed

text \<open>
  Scenario D: the review log \<^verbatim>\<open>r1\<close> applied twice from a counter of 1. The call returns, the
  table holds the one row of the first application (sequence number 1), and the counter is 3.
\<close>

theorem reviewLog_grow_only_witness:
  "applyOps [mkOp ''reviewLog'' 100 ''A'' ''u'' [(''id'', Text ''r1''), (''grade'', Integer 3)],
             mkOp ''reviewLog'' 100 ''A'' ''u'' [(''id'', Text ''r1''), (''grade'', Integer 3)]]
     (userDb [''u'' \<mapsto> 1])
   = Inr ((userDb [''u'' \<mapsto> 3])\<lparr>reviewLogs := [[Text ''r1''] \<mapsto>
       map_of (reviewLogValues
         (mkOp ''reviewLog'' 100 ''A'' ''u'' [(''id'', Text ''r1''), (''grade'', Integer 3)]) 1)]\<rparr>)"
proof -
  let ?op = "mkOp ''reviewLog'' 100 ''A'' ''u'' [(''id'', Text ''r1''), (''grade'', Integer 3)]"
  have t: "optype ?op = ''reviewLog''" by (simp add: mkOp_def)
  have u: "users (userDb [''u'' \<mapsto> 1]) (userId ?op) = Some 1" by (simp add: mkOp_def userDb_def)
  have h: "(handleReviewLogOperation ?op (userDb [''u'' \<mapsto> 1]) 1)
             \<lparr>users := (users (userDb [''u'' \<mapsto> 1]))(userId ?op \<mapsto> 1 + 1 + int (Suc 0))\<rparr>
      = (userDb [''u'' \<mapsto> 3])\<lparr>reviewLogs := [[Text ''r1''] \<mapsto> map_of (reviewLogValues ?op 1)]\<rparr>"
    by (simp add: handleReviewLogOperation_def onConflictDoNothing_def handler_keys Let_def
        userDb_def)
      (simp add: mkOp_def obj_def)
  from reviewLog_grow_only [OF t u, of "Suc 0", THEN conjunct1]
  show ?thesis by (simp only: h replicate.simps)
qed

section \<open>Replaying an operation\<close>

text \<open>
  Claim C7. Let an operation \<open>op\<close> be applied successfully to \<open>db\<close>, followed by any
  operations \<open>mid\<close> that are applied successfully (none, for an immediate replay), giving
  \<open>db1\<close>. Then applying \<open>op\<close> again succeeds, with a sequence number \<open>s\<close> greater than the number
  \<open>s0\<close> of its first application, and it changes nothing but the user's counter: every row of
  every table, with its \<open>seqNo\<close>, \<open>lastModified\<close> and \<open>lastModifiedClient\<close>, is as in \<open>db1\<close>.
\<close>

theorem replay_is_noop:
  assumes "applyOps (op # mid) db = Inr db1"
  shows "\<exists>s0 s. users db (userId op) = Some s0 \<and> users db1 (userId op) = Some s \<and> s0 < s
           \<and> handleClientOperation op db1 Executes
               = (Inr (), db1\<lparr>users := (users db1)(userId op \<mapsto> s + 1)\<rparr>)"
proof -
  from assms obtain s0 where u: "users db (userId op) = Some s0"
    and k: "optype op \<in> set operationTypes"
    and r: "applyOps mid (merged op s0 (reserved db (userId op) s0)) = Inr db1"
    by (rule applyOps_Cons_Inr)
  have a: "absorbed op (merged op s0 (reserved db (userId op) s0))"
    using k by (rule merged_absorbed)
  have "users (merged op s0 (reserved db (userId op) s0)) (userId op) = Some (s0 + 1)"
    by (simp add: users_reserved)
  from applyOps_users_mono [OF this r] obtain s where s: "users db1 (userId op) = Some s"
    and le: "s0 + 1 \<le> s" by blast
  from applyOps_absorbed [OF a r] have "absorbed op db1" .
  from absorbed_replay [OF this s] u s le show ?thesis by simp
qed

text \<open>
  Two \<^verbatim>\<open>card\<close> operations on the card \<^verbatim>\<open>c1\<close> (scenario B), then the first one again: the replay
  gets the sequence number 3 and leaves every table as it was.
\<close>

theorem replay_is_noop_witness:
  "\<exists>db1. applyOps [mkOp ''card'' 100 ''A'' ''u'' [(''id'', Text ''c1''), (''stability'', Number 1)],
                    mkOp ''card'' 100 ''B'' ''u'' [(''id'', Text ''c1''), (''stability'', Number 2)]]
            (userDb [''u'' \<mapsto> 1]) = Inr db1
     \<and> users db1 = [''u'' \<mapsto> 3]
     \<and> handleClientOperation
           (mkOp ''card'' 100 ''A'' ''u'' [(''id'', Text ''c1''), (''stability'', Number 1)])
           db1 Executes
         = (Inr (), db1\<lparr>users := [''u'' \<mapsto> 4]\<rparr>)"
proof -
  let ?a = "mkOp ''card'' 100 ''A'' ''u'' [(''id'', Text ''c1''), (''stability'', Number 1)]"
  let ?b = "mkOp ''card'' 100 ''B'' ''u'' [(''id'', Text ''c1''), (''stability'', Number 2)]"
  have ta: "optype ?a \<in> set operationTypes" and tb: "optype ?b \<in> set operationTypes"
    by (simp_all add: mkOp_def operationTypes_def)
  have ua: "userId ?a = ''u''" and ub: "userId ?b = ''u''" by (simp_all add: mkOp_def)
  let ?db1 = "merged ?b 2 (reserved (merged ?a 1 (reserved (userDb [''u'' \<mapsto> 1]) ''u'' 1)) ''u'' 2)"
  have "users (userDb [''u'' \<mapsto> 1]) (userId ?a) = Some 1" by (simp add: ua userDb_def)
  from handleClientOperation_merged [OF this] ta
  have 1: "handleClientOperation ?a (userDb [''u'' \<mapsto> 1]) Executes
      = (Inr (), merged ?a 1 (reserved (userDb [''u'' \<mapsto> 1]) ''u'' 1))"
    by (simp add: ua)
  have "users (merged ?a 1 (reserved (userDb [''u'' \<mapsto> 1]) ''u'' 1)) (userId ?b) = Some 2"
    by (simp add: ub users_reserved)
  from handleClientOperation_merged [OF this] tb
  have 2: "handleClientOperation ?b (merged ?a 1 (reserved (userDb [''u'' \<mapsto> 1]) ''u'' 1)) Executes
      = (Inr (), ?db1)"
    by (simp add: ub)
  have r: "applyOps [?a, ?b] (userDb [''u'' \<mapsto> 1]) = Inr ?db1"
    by (simp add: 1 2)
  have us: "users ?db1 = [''u'' \<mapsto> 3]"
    by (simp add: users_reserved userDb_def)
  from replay_is_noop [OF r] us
  have "handleClientOperation ?a ?db1 Executes = (Inr (), ?db1\<lparr>users := [''u'' \<mapsto> 4]\<rparr>)"
    by (auto simp: ua)
  with r us show ?thesis by blast
qed

section \<open>Last-write-wins registers\<close>




section \<open>The metadata the handlers write\<close>

text \<open>
  Claim C3, as amended. Whenever one of the eight handlers other than the one of \<^verbatim>\<open>reviewLog\<close>
  changes the database (an insert or a winning update), the row of the operation's key carries
  afterwards the sequence number of the call, \<open>new Date(op.timestamp)\<close> as \<open>lastModified\<close> and
  the client as \<open>lastModifiedClient\<close>. Whenever the \<^verbatim>\<open>reviewLog\<close> handler changes the database,
  the row carries the sequence number, the client as \<open>lastModifiedClient\<close> and
  \<open>new Date(op.timestamp)\<close> as \<open>createdAt\<close>, and no \<open>lastModified\<close>.
\<close>

theorem handlers_write_metadata:
  "(handleCardOperation op db q = db
     \<or> metadata (cards (handleCardOperation op db q) [payload op ''id''])
         = (Some (Integer q), Some (newDate (timestamp op)), Some (Text (clientId op))))
   \<and> (handleReviewLogDeletedOperation op db q = db
     \<or> metadata (reviewLogDeleted (handleReviewLogDeletedOperation op db q)
           [payload op ''reviewLogId''])
         = (Some (Integer q), Some (newDate (timestamp op)), Some (Text (clientId op))))
   \<and> (handleCardContentOperation op db q = db
     \<or> metadata (cardContents (handleCardContentOperation op db q) [payload op ''cardId''])
         = (Some (Integer q), Some (newDate (timestamp op)), Some (Text (clientId op))))
   \<and> (handleCardDeletedOperation op db q = db
     \<or> metadata (cardDeleted (handleCardDeletedOperation op db q) [payload op ''cardId''])
         = (Some (Integer q), Some (newDate (timestamp op)), Some (Text (clientId op))))
   \<and> (handleCardBookmarkedOperation op db q = db
     \<or> metadata (cardBookmarked (handleCardBookmarkedOperation op db q) [payload op ''cardId''])
         = (Some (Integer q), Some (newDate (timestamp op)), Some (Text (clientId op))))
   \<and> (handleCardSuspendedOperation op db q = db
     \<or> metadata (cardSuspended (handleCardSuspendedOperation op db q) [payload op ''cardId''])
         = (Some (Integer q), Some (newDate (timestamp op)), Some (Text (clientId op))))
   \<and> (handleDeckOperation op db q = db
     \<or> metadata (decks (handleDeckOperation op db q) [payload op ''id''])
         = (Some (Integer q), Some (newDate (timestamp op)), Some (Text (clientId op))))
   \<and> (handleUpdateDeckCardOperation op db q = db
     \<or> metadata (cardDecks (handleUpdateDeckCardOperation op db q)
           [payload op ''cardId'', payload op ''deckId''])
         = (Some (Integer q), Some (newDate (timestamp op)), Some (Text (clientId op))))
   \<and> (handleReviewLogOperation op db q = db
     \<or> (metadata (reviewLogs (handleReviewLogOperation op db q) [payload op ''id''])
           = (Some (Integer q), None, Some (Text (clientId op)))
         \<and> column (reviewLogs (handleReviewLogOperation op db q) [payload op ''id''])
             ''createdAt'' = Some (newDate (timestamp op))))"
  by (intro conjI written_card written_reviewLogDeleted written_cardContent written_cardDeleted
      written_cardBookmarked written_cardSuspended written_deck written_updateDeckCard
      written_reviewLog)

text \<open>
  The claim as the specification states it fails for \<^verbatim>\<open>reviewLog\<close>: the handler inserts a row
  and sets no column \<open>lastModified\<close> on it.
\<close>

theorem reviewLog_metadata_counterexample:
  "handleReviewLogOperation reviewLogOp (userDb [''u'' \<mapsto> 2]) 1 \<noteq> userDb [''u'' \<mapsto> 2]
   \<and> metadata (reviewLogs (handleReviewLogOperation reviewLogOp (userDb [''u'' \<mapsto> 2]) 1)
         [Text ''r1''])
       = (Some (Integer 1), None, Some (Text ''A''))"
proof -
  have r: "reviewLogs (handleReviewLogOperation reviewLogOp (userDb [''u'' \<mapsto> 2]) 1) [Text ''r1'']
      = Some (map_of (reviewLogValues reviewLogOp 1))"
    by (simp add: handleReviewLogOperation_def onConflictDoNothing_def handler_keys Let_def
        userDb_def reviewLogOp_def mkOp_def obj_def)
  have "reviewLogs (userDb [''u'' \<mapsto> 2]) [Text ''r1''] = None"
    by (simp add: userDb_def)
  with r have "handleReviewLogOperation reviewLogOp (userDb [''u'' \<mapsto> 2]) 1 \<noteq> userDb [''u'' \<mapsto> 2]"
    by auto
  moreover have "metadata (Some (map_of (reviewLogValues reviewLogOp 1)))
      = (Some (Integer 1), None, Some (Text ''A''))"
    by (simp add: metadata_def column_def reviewLogValues_def reviewLogOp_def mkOp_def obj_def
        defined_lookup)
  ultimately show ?thesis by (simp add: r)
qed

text \<open>A \<^verbatim>\<open>card\<close> operation inserted with the sequence number 1.\<close>

theorem handlers_write_metadata_witness:
  "metadata (cards (handleCardOperation
        (mkOp ''card'' 100 ''A'' ''u'' [(''id'', Text ''c1'')]) (userDb [''u'' \<mapsto> 2]) 1)
        [Text ''c1''])
     = (Some (Integer 1), Some (Date 100), Some (Text ''A''))"
proof -
  let ?op = "mkOp ''card'' 100 ''A'' ''u'' [(''id'', Text ''c1'')]"
  have k: "payload ?op ''id'' = Text ''c1''" by (simp add: mkOp_def obj_def)
  have "cards (handleCardOperation ?op (userDb [''u'' \<mapsto> 2]) 1) [Text ''c1''] \<noteq> None"
    by (simp add: handleCardOperation_def onConflictDoUpdate_def handler_keys Let_def k userDb_def)
  moreover have "cards (userDb [''u'' \<mapsto> 2]) [Text ''c1''] = None" by (simp add: userDb_def)
  ultimately have "handleCardOperation ?op (userDb [''u'' \<mapsto> 2]) 1 \<noteq> userDb [''u'' \<mapsto> 2]"
    by auto
  with handlers_write_metadata [of ?op "userDb [''u'' \<mapsto> 2]" 1, THEN conjunct1] show ?thesis
    by (simp add: mkOp_def obj_def newDate_def)
qed

section \<open>Order independence\<close>

text \<open>
  Claim C6, as amended. Take a sequence of operations of one kind, among the seven
  last-write-wins kinds and \<^verbatim>\<open>updateDeckCard\<close>, that target the same key and come from one user
  whose row exists, each complete (it defines every payload field of its kind and its
  timestamp is one a date can hold), such that of any two different operations of the
  sequence one dominates the other. Then the sequence and every permutation of it are
  applied without error by \<open>handleClientOperation\<close>, from any database, and the final rows of
  the key agree in every column except \<open>seqNo\<close>.
\<close>

theorem order_independent_but_seqNo:
  assumes "optype op0 \<in> set mergedTypes"
    and "\<forall>x\<in>set ops. optype x = optype op0 \<and> targetKey x = targetKey op0 \<and> userId x = userId op0"
    and "users db (userId op0) = Some s"
    and "\<forall>x\<in>set ops. \<forall>y\<in>set ops. x = y \<or> dominates x y \<or> dominates y x"
    and "mset ops' = mset ops"
    and "\<forall>x\<in>set ops. complete x"
  shows "\<exists>db1 db2. applyOps ops db = Inr db1 \<and> applyOps ops' db = Inr db2
     \<and> dropSeqNo (targetRow op0 db1) = dropSeqNo (targetRow op0 db2)"
proof -
  from assms(5) have se: "set ops' = set ops" by (rule mset_eq_setD)
  from applyOps_fold [OF assms(1,2,3)] obtain db1 where 1: "applyOps ops db = Inr db1"
    and f1: "dropSeqNo (targetRow op0 db1) = fold astep ops (dropSeqNo (targetRow op0 db))"
    by blast
  from assms(2) se have "\<forall>x\<in>set ops'. optype x = optype op0 \<and> targetKey x = targetKey op0
      \<and> userId x = userId op0" by simp
  from applyOps_fold [OF assms(1) this assms(3)] obtain db2 where 2: "applyOps ops' db = Inr db2"
    and f2: "dropSeqNo (targetRow op0 db2) = fold astep ops' (dropSeqNo (targetRow op0 db))"
    by blast
  have "fold astep ops = fold astep ops'"
  proof (rule fold_multiset_equiv)
    fix x y
    assume x: "x \<in> set ops" and y: "y \<in> set ops"
    with assms(2) have "optype x = optype op0" "optype y = optype op0"
      "targetKey x = targetKey op0" "targetKey y = targetKey op0"
      "userId x = userId op0" "userId y = userId op0" by simp_all
    moreover from x y assms(4) have "x = y \<or> dominates x y \<or> dominates y x" by blast
    moreover from x y assms(6) have "complete x" "complete y" by simp_all
    ultimately show "astep x \<circ> astep y = astep y \<circ> astep x"
      using assms(1) by (intro astep_commute) simp_all
  next
    show "mset ops = mset ops'" using assms(5) by simp
  qed
  with f1 f2 have "dropSeqNo (targetRow op0 db1) = dropSeqNo (targetRow op0 db2)" by simp
  with 1 2 show ?thesis by blast
qed

text \<open>
  Scenario B in both orders: two \<^verbatim>\<open>card\<close> operations on the card \<^verbatim>\<open>c1\<close> with the timestamp 100,
  of the clients \<^verbatim>\<open>A\<close> and \<^verbatim>\<open>B\<close>, both defining every field of a card.
\<close>

theorem order_independent_but_seqNo_witness:
  "\<exists>db1 db2. applyOps [cardOpA, cardOpB] (userDb [''u'' \<mapsto> 1]) = Inr db1
     \<and> applyOps [cardOpB, cardOpA] (userDb [''u'' \<mapsto> 1]) = Inr db2
     \<and> dropSeqNo (targetRow cardOpA db1) = dropSeqNo (targetRow cardOpA db2)"
proof (rule order_independent_but_seqNo [where s = 1])
  show "optype cardOpA \<in> set mergedTypes"
    by (simp add: cardOpA_def mkOp_def mergedTypes_def lwwTypes_def)
  show "\<forall>x\<in>set [cardOpA, cardOpB]. optype x = optype cardOpA
      \<and> targetKey x = targetKey cardOpA \<and> userId x = userId cardOpA"
    by (simp add: cardOpA_def cardOpB_def mkOp_def targetKey_def obj_def cardFields_def)
  show "users (userDb [''u'' \<mapsto> 1]) (userId cardOpA) = Some 1"
    by (simp add: cardOpA_def mkOp_def userDb_def)
  have "dominates cardOpB cardOpA"
    by (simp add: dominates_def cardOpA_def cardOpB_def mkOp_def less_prod_def less_char_def)
  then show "\<forall>x\<in>set [cardOpA, cardOpB]. \<forall>y\<in>set [cardOpA, cardOpB].
      x = y \<or> dominates x y \<or> dominates y x"
    by simp
  show "mset [cardOpB, cardOpA] = mset [cardOpA, cardOpB]"
    by (simp add: add_mset_commute)
  show "\<forall>x\<in>set [cardOpA, cardOpB]. complete x"
    by (simp add: complete_def definesAll_def payloadFields_def validTimestamp_def cardOpA_def
        cardOpB_def mkOp_def obj_def cardFields_def)
qed

text \<open>
  The claim as the specification states it fails. The final row carries the sequence number
  reserved when the winning operation arrived, so the two orders of scenario B end with the
  sequence numbers 2 and 1. Beyond the sequence number: of two \<^verbatim>\<open>card\<close> operations with the
  same timestamp and client the first to arrive stays (stability 1 or 3); the owner of a card
  is the user of the first operation to arrive; of two \<^verbatim>\<open>reviewLog\<close> operations with one
  id the first to arrive stays (grade 3 or 4); and when the later of two \<^verbatim>\<open>card\<close> operations
  has no \<^verbatim>\<open>last_review\<close>, the final row has the \<^verbatim>\<open>last_review\<close> of the earlier one if that one
  arrived first, and none if it arrived second.
\<close>

theorem order_dependence_counterexample:
  "finalRow [cardOpA, cardOpB] (userDb [''u'' \<mapsto> 1]) cardOpA
     \<noteq> finalRow [cardOpB, cardOpA] (userDb [''u'' \<mapsto> 1]) cardOpA
   \<and> column (finalRow [cardOpA, cardOpB] (userDb [''u'' \<mapsto> 1]) cardOpA) ''seqNo''
       = Some (Integer 2)
   \<and> column (finalRow [cardOpB, cardOpA] (userDb [''u'' \<mapsto> 1]) cardOpA) ''seqNo''
       = Some (Integer 1)
   \<and> column (finalRow [cardOpA, cardOpA2] (userDb [''u'' \<mapsto> 1]) cardOpA) ''stability''
       = Some (Number 1)
   \<and> column (finalRow [cardOpA2, cardOpA] (userDb [''u'' \<mapsto> 1]) cardOpA) ''stability''
       = Some (Number 3)
   \<and> column (finalRow [cardOpA, cardOpV] (userDb [''u'' \<mapsto> 1, ''v'' \<mapsto> 1]) cardOpA) ''userId''
       = Some (Text ''u'')
   \<and> column (finalRow [cardOpV, cardOpA] (userDb [''u'' \<mapsto> 1, ''v'' \<mapsto> 1]) cardOpA) ''userId''
       = Some (Text ''v'')
   \<and> column (finalRow [reviewLogOp, reviewLogOp2] (userDb [''u'' \<mapsto> 1]) reviewLogOp) ''grade''
       = Some (Integer 3)
   \<and> column (finalRow [reviewLogOp2, reviewLogOp] (userDb [''u'' \<mapsto> 1]) reviewLogOp) ''grade''
       = Some (Integer 4)
   \<and> column (finalRow [cardOpA, cardOpNew] (userDb [''u'' \<mapsto> 1]) cardOpA) ''last_review''
       = Some (Date 50)
   \<and> column (finalRow [cardOpNew, cardOpA] (userDb [''u'' \<mapsto> 1]) cardOpA) ''last_review''
       = None"
proof -
  have "finalRow [cardOpA, cardOpB] (userDb [''u'' \<mapsto> 1]) cardOpA
     \<noteq> finalRow [cardOpB, cardOpA] (userDb [''u'' \<mapsto> 1]) cardOpA"
  proof
    assume "finalRow [cardOpA, cardOpB] (userDb [''u'' \<mapsto> 1]) cardOpA
      = finalRow [cardOpB, cardOpA] (userDb [''u'' \<mapsto> 1]) cardOpA"
    then have "column (finalRow [cardOpA, cardOpB] (userDb [''u'' \<mapsto> 1]) cardOpA) ''seqNo''
      = column (finalRow [cardOpB, cardOpA] (userDb [''u'' \<mapsto> 1]) cardOpA) ''seqNo''"
      by (rule arg_cong)
    then show False by (simp add: seqNo_ab seqNo_ba)
  qed
  then show ?thesis
    by (intro conjI seqNo_ab seqNo_ba tie_a tie_b owner_a owner_b log_a log_b absent_a absent_b)
qed

end
